theory Spec2Isabelle
  imports Complex_Main "HOL-Library.Signed_Division"
begin

section \<open>Numbers\<close>

text \<open>
  The engine of \<^verbatim>\<open>noise.cpp\<close> computes with C++ \<^verbatim>\<open>int\<close> and \<^verbatim>\<open>double\<close>.
  A \<^verbatim>\<open>double\<close> is modelled as a \<^typ>\<open>real\<close> (no rounding, no NaN, no infinities).
  An \<^verbatim>\<open>int\<close> is modelled as an \<^typ>\<open>int\<close>; where the source computes with it, the
  32-bit two's-complement wrap-around is written out with \<open>int32\<close>, division truncates
  (\<open>sdiv\<close>) and the remainder takes the sign of the dividend (\<open>smod\<close>), as C++ has them.
  C++ leaves signed overflow undefined; the wrap-around is what the usual targets compute.
\<close>

definition INT_MAX :: int where
  "INT_MAX = 2147483647"

definition INT_MIN :: int where
  "INT_MIN = - 2147483648"

text \<open>\<^verbatim>\<open>numeric_limits<double>::max()\<close>, the largest finite double.\<close>

definition DBL_MAX :: real where
  "DBL_MAX = 2 ^ 1024 - 2 ^ 971"

text \<open>The value a 32-bit register holds after an operation whose exact result is \<open>n\<close>.\<close>

definition int32 :: "int \<Rightarrow> int" where
  "int32 n = signed_take_bit 31 n"

section \<open>Geometry\<close>

text \<open>
  \<^verbatim>\<open>Point2D\<close>, \<^verbatim>\<open>Point3D\<close> and \<^verbatim>\<open>Segment3D\<close> of \<^verbatim>\<open>math2d.h\<close> and \<^verbatim>\<open>math3d.h\<close>.
  The fields \<^verbatim>\<open>x\<close>, \<^verbatim>\<open>y\<close>, \<^verbatim>\<open>z\<close>, \<^verbatim>\<open>a\<close>, \<^verbatim>\<open>b\<close> carry the dimension as a suffix.
  \<^verbatim>\<open>operator==\<close> is equality of the coordinates.
\<close>

record Point2D =
  x2 :: real
  y2 :: real

record Point3D =
  x3 :: real
  y3 :: real
  z3 :: real

record Segment2D =
  a2 :: Point2D
  b2 :: Point2D

record Segment3D =
  a3 :: Point3D
  b3 :: Point3D

text \<open>
  Modelled from the spec: the default constructors, the planar projection and the vector
  operators of \<^verbatim>\<open>math2d.h\<close> and \<^verbatim>\<open>math3d.h\<close>, which are not in the sources. A default
  point is the origin; \<^verbatim>\<open>ProjectionZ\<close> drops the elevation; \<^verbatim>\<open>2.0 * p - q\<close> is computed
  coordinate by coordinate (\<open>2*start - end\<close> in the spec).
\<close>

definition Point2D_default :: Point2D where
  "Point2D_default = \<lparr>x2 = 0, y2 = 0\<rparr>"

definition Point3D_default :: Point3D where
  "Point3D_default = \<lparr>x3 = 0, y3 = 0, z3 = 0\<rparr>"

definition Segment3D_default :: Segment3D where
  "Segment3D_default = \<lparr>a3 = Point3D_default, b3 = Point3D_default\<rparr>"

definition ProjectionZ :: "Point3D \<Rightarrow> Point2D" where
  "ProjectionZ p = \<lparr>x2 = x3 p, y2 = y3 p\<rparr>"

definition ProjectionZ_seg :: "Segment3D \<Rightarrow> Segment2D" where
  "ProjectionZ_seg s = \<lparr>a2 = ProjectionZ (a3 s), b2 = ProjectionZ (b3 s)\<rparr>"



text \<open>\<^verbatim>\<open>std::clamp(v, lo, hi)\<close>.\<close>

definition clamp :: "real \<Rightarrow> real \<Rightarrow> real \<Rightarrow> real" where
  "clamp v lo hi = (if v < lo then lo else if hi < v then hi else v)"

text \<open>\<^verbatim>\<open>int(d)\<close> for a double \<open>d\<close>: the fractional part is discarded.\<close>

definition int_of_double :: "real \<Rightarrow> int" where
  "int_of_double d = (if 0 \<le> d then \<lfloor>d\<rfloor> else \<lceil>d\<rceil>)"

section \<open>What the engine is built on\<close>

text \<open>
  \<^verbatim>\<open>noise.cpp\<close> includes \<^verbatim>\<open>noise.h\<close>, \<^verbatim>\<open>perlin.h\<close>, \<^verbatim>\<open>math2d.h\<close>, \<^verbatim>\<open>math3d.h\<close>,
  \<^verbatim>\<open>spline.h\<close> and \<^verbatim>\<open>utils.h\<close>, none of which is in the sources, and draws its random
  numbers from the C++ standard library. What it uses of them is a parameter of every
  function of the model, the record \<open>lib\<close>:
  \<^item> \<open>CACHE_X\<close>, \<open>CACHE_Y\<close>: the size of the point cache (constants of \<^verbatim>\<open>noise.h\<close>);
  \<^item> \<open>RandomGenerator\<close>: the generator seeded with an \<^verbatim>\<open>int\<close>, \<open>'g\<close> its state;
  \<^item> \<open>distribution\<close>: one draw of \<^verbatim>\<open>uniform_real_distribution<double>(lo, hi)\<close>, which
    returns the variate and the generator's next state;
  \<^item> \<open>Perlin\<close>, \<open>Remap\<close>: the control function and the linear remap;
  \<^item> \<open>MidPoint\<close>, \<open>SubdivideCatmullRomSpline\<close>: the midpoint of a segment and the
    spline's point at parameter one half;
  \<^item> \<open>distToLineSegment\<close> (the distance and the nearest point, which the source takes
    through a reference), \<open>pointLineProjection\<close>, \<open>length2D\<close> (\<^verbatim>\<open>length\<close>), \<open>lerp\<close> and
    \<open>lerp_clamp\<close>.
\<close>

record 'g lib =
  CACHE_X :: nat
  CACHE_Y :: nat
  RandomGenerator :: "int \<Rightarrow> 'g"
  distribution :: "real \<Rightarrow> real \<Rightarrow> 'g \<Rightarrow> real \<times> 'g"
  Perlin :: "real \<Rightarrow> real \<Rightarrow> real"
  Remap :: "real \<Rightarrow> real \<Rightarrow> real \<Rightarrow> real \<Rightarrow> real \<Rightarrow> real"
  MidPoint :: "Segment3D \<Rightarrow> Point3D"
  SubdivideCatmullRomSpline :: "Point3D \<Rightarrow> Point3D \<Rightarrow> Point3D \<Rightarrow> Point3D \<Rightarrow> Point3D"
  distToLineSegment :: "Point2D \<Rightarrow> Segment2D \<Rightarrow> real \<times> Point2D"
  pointLineProjection :: "Point2D \<Rightarrow> Segment2D \<Rightarrow> real"
  length2D :: "Segment2D \<Rightarrow> real"
  lerp :: "Segment3D \<Rightarrow> real \<Rightarrow> Point3D"
  lerp_clamp :: "real \<Rightarrow> real \<Rightarrow> real \<Rightarrow> real"

section \<open>The engine\<close>

record Noise =
  m_seed :: int
  m_displayPoints :: bool
  m_displaySegments :: bool
  m_displayGrid :: bool
  m_noiseTopLeft :: Point2D
  m_noiseBottomRight :: Point2D
  m_perlinTopLeft :: Point2D
  m_perlinBottomRight :: Point2D
  m_eps :: real
  m_pointCache :: "Point2D list list"

subsection \<open>Points and their cache\<close>

text \<open>
  \<^verbatim>\<open>return (541 * i + 79 * j + m_seed) % numeric_limits<int>::max();\<close>
  Each product and each sum is a 32-bit operation.
\<close>

definition GenerateSeedNoise :: "Noise \<Rightarrow> int \<Rightarrow> int \<Rightarrow> int" where
  "GenerateSeedNoise e i j =
     int32 (int32 (int32 (541 * i) + int32 (79 * j)) + m_seed e) smod INT_MAX"

text \<open>A fresh generator is seeded in every call; the two draws are made in this order.\<close>

definition GeneratePoint :: "'g lib \<Rightarrow> Noise \<Rightarrow> int \<Rightarrow> int \<Rightarrow> Point2D" where
  "GeneratePoint L e x y =
     (let seed = GenerateSeedNoise e x y;
          generator = RandomGenerator L seed;
          (px, generator) = distribution L (m_eps e) (1 - m_eps e) generator;
          (py, generator) = distribution L (m_eps e) (1 - m_eps e) generator
      in \<lparr>x2 = real_of_int x + px, y2 = real_of_int y + py\<rparr>)"

text \<open>
  \<^verbatim>\<open>InitPointCache\<close>: the outer vector is resized to \<open>CACHE_X\<close> empty rows; for every
  \<open>x\<close> from \<^verbatim>\<open>-CACHE_X / 2\<close> up to \<^verbatim>\<open>CACHE_X / 2\<close> (excluded) row \<open>x + CACHE_X / 2\<close> is
  resized to \<open>CACHE_Y\<close> default points and filled for every \<open>y\<close> from \<^verbatim>\<open>-CACHE_Y / 2\<close>
  up to \<^verbatim>\<open>CACHE_Y / 2\<close> (excluded).
\<close>

definition InitPointCache_row :: "'g lib \<Rightarrow> Noise \<Rightarrow> int \<Rightarrow> Point2D list" where
  "InitPointCache_row L e x =
     fold (\<lambda>y row. row[nat (y + int (CACHE_Y L) sdiv 2) := GeneratePoint L e x y])
       [(- int (CACHE_Y L)) sdiv 2 .. int (CACHE_Y L) sdiv 2 - 1]
       (replicate (CACHE_Y L) Point2D_default)"

definition InitPointCache :: "'g lib \<Rightarrow> Noise \<Rightarrow> Noise" where
  "InitPointCache L e =
     e\<lparr>m_pointCache :=
         fold (\<lambda>x cache. cache[nat (x + int (CACHE_X L) sdiv 2) := InitPointCache_row L e x])
           [(- int (CACHE_X L)) sdiv 2 .. int (CACHE_X L) sdiv 2 - 1]
           (replicate (CACHE_X L) [])\<rparr>"

text \<open>
  The constructor stores its arguments and fills the cache. It has no other statement:
  nothing is checked and nothing is thrown, so the result is always \<open>Inr\<close>.
\<close>

datatype error = ConfigurationError

definition Noise_new ::
  "'g lib \<Rightarrow> Point2D \<Rightarrow> Point2D \<Rightarrow> Point2D \<Rightarrow> Point2D \<Rightarrow> int \<Rightarrow> real \<Rightarrow> bool \<Rightarrow> bool \<Rightarrow> bool
     \<Rightarrow> error + Noise" where
  "Noise_new L noiseTopLeft noiseBottomRight perlinTopLeft perlinBottomRight seed eps
       displayPoints displaySegments displayGrid =
     Inr (InitPointCache L
       \<lparr>m_seed = seed,
        m_displayPoints = displayPoints,
        m_displaySegments = displaySegments,
        m_displayGrid = displayGrid,
        m_noiseTopLeft = noiseTopLeft,
        m_noiseBottomRight = noiseBottomRight,
        m_perlinTopLeft = perlinTopLeft,
        m_perlinBottomRight = perlinBottomRight,
        m_eps = eps,
        m_pointCache = []\<rparr>)"

definition GeneratePointCached :: "'g lib \<Rightarrow> Noise \<Rightarrow> int \<Rightarrow> int \<Rightarrow> Point2D" where
  "GeneratePointCached L e x y =
     (if x \<ge> (- int (CACHE_X L)) sdiv 2 \<and> x < int (CACHE_X L) sdiv 2
        \<and> y \<ge> (- int (CACHE_Y L)) sdiv 2 \<and> y < int (CACHE_Y L) sdiv 2
      then m_pointCache e ! nat (x + int (CACHE_X L) sdiv 2) ! nat (y + int (CACHE_Y L) sdiv 2)
      else GeneratePoint L e x y)"

text \<open>
  Row \<open>i\<close>, column \<open>j\<close> is the point of the cell \<open>(cx + j - 2, cy + i - 2)\<close>
  (\<^verbatim>\<open>int(points.size()) / 2\<close> is \<open>5 / 2 = 2\<close>), and of \<open>(cx + j - 3, cy + i - 3)\<close> in the
  7 by 7 neighbourhood.
\<close>

definition GenerateNeighboringPoints5 :: "'g lib \<Rightarrow> Noise \<Rightarrow> int \<Rightarrow> int \<Rightarrow> Point2D list list" where
  "GenerateNeighboringPoints5 L e cx cy =
     map (\<lambda>i. map (\<lambda>j. GeneratePointCached L e (cx + int j - 2) (cy + int i - 2)) [0..<5]) [0..<5]"

definition GenerateNeighboringPoints7 :: "'g lib \<Rightarrow> Noise \<Rightarrow> int \<Rightarrow> int \<Rightarrow> Point2D list list" where
  "GenerateNeighboringPoints7 L e cx cy =
     map (\<lambda>i. map (\<lambda>j. GeneratePointCached L e (cx + int j - 3) (cy + int i - 3)) [0..<7]) [0..<7]"

subsection \<open>Level 1: elevations and segments\<close>

definition ComputeElevations :: "'g lib \<Rightarrow> Noise \<Rightarrow> Point2D list list \<Rightarrow> real list list" where
  "ComputeElevations L e points =
     map (\<lambda>i. map (\<lambda>j.
       (let x = Remap L (x2 (points ! i ! j)) (x2 (m_noiseTopLeft e)) (x2 (m_noiseBottomRight e))
                  (x2 (m_perlinTopLeft e)) (x2 (m_perlinBottomRight e));
            y = Remap L (y2 (points ! i ! j)) (y2 (m_noiseTopLeft e)) (y2 (m_noiseBottomRight e))
                  (y2 (m_perlinTopLeft e)) (y2 (m_perlinBottomRight e))
        in (Perlin L x y + 1) / 2)) [0..<7]) [0..<7]"

text \<open>
  The search for the lowest neighbour of the cell \<open>(i, j)\<close>: the two inner loops of
  \<^verbatim>\<open>GenerateSegments\<close>, over \<open>k = i - 1, i, i + 1\<close> and \<open>l = j - 1, j, j + 1\<close>, on the state
  \<open>(lowestNeighborElevation, lowestNeighborI, lowestNeighborJ)\<close>.
\<close>

definition LowestNeighbor :: "real list list \<Rightarrow> nat \<Rightarrow> nat \<Rightarrow> real \<times> nat \<times> nat" where
  "LowestNeighbor elevations i j =
     fold (\<lambda>k. fold (\<lambda>l (lowestNeighborElevation, lowestNeighborI, lowestNeighborJ).
                  if elevations ! k ! l < lowestNeighborElevation
                  then (elevations ! k ! l, k, l)
                  else (lowestNeighborElevation, lowestNeighborI, lowestNeighborJ))
                [j - 1 ..< j + 2])
       [i - 1 ..< i + 2] (DBL_MAX, i, j)"

text \<open>
  The segment of the cell \<open>(i, j)\<close>: the body of the two outer loops of
  \<^verbatim>\<open>GenerateSegments\<close>, which is stored at the index \<open>5 * (i - 1) + j - 1\<close>.
\<close>

definition LevelOneSegment :: "Point2D list list \<Rightarrow> real list list \<Rightarrow> nat \<Rightarrow> nat \<Rightarrow> Segment3D" where
  "LevelOneSegment points elevations i j =
     (let (lowestNeighborElevation, lowestNeighborI, lowestNeighborJ) =
            LowestNeighbor elevations i j;
          a = \<lparr>x3 = x2 (points ! i ! j), y3 = y2 (points ! i ! j), z3 = elevations ! i ! j\<rparr>;
          b = \<lparr>x3 = x2 (points ! lowestNeighborI ! lowestNeighborJ),
               y3 = y2 (points ! lowestNeighborI ! lowestNeighborJ),
               z3 = lowestNeighborElevation\<rparr>
      in \<lparr>a3 = a, b3 = b\<rparr>)"

definition GenerateSegments :: "'g lib \<Rightarrow> Noise \<Rightarrow> Point2D list list \<Rightarrow> Segment3D list" where
  "GenerateSegments L e points =
     (let elevations = ComputeElevations L e points in
      fold (\<lambda>i. fold (\<lambda>j segments.
              segments[5 * (i - 1) + j - 1 := LevelOneSegment points elevations i j]) [1..<6])
        [1..<6] (replicate 25 Segment3D_default))"

subsection \<open>Subdivision\<close>





subsection \<open>Level 2: the quadrant and the refined points\<close>

definition GetSubQuadrant :: "real \<Rightarrow> real \<Rightarrow> real \<Rightarrow> real \<Rightarrow> int \<times> int" where
  "GetSubQuadrant cx cy x y =
     (let quadrantX = \<lfloor>2 * (x - cx)\<rfloor>;
          quadrantY = \<lfloor>2 * (y - cy)\<rfloor>
      in (quadrantX, quadrantY))"

text \<open>
  The last loop of \<^verbatim>\<open>GenerateNeighboringSubPoints\<close>, over the 49 points of level 1 in the
  order of their indices: a point whose place \<open>(k, l)\<close> lies in the 5 by 5 array is
  written there.
\<close>

definition ReplaceSubPoints ::
  "real \<Rightarrow> real \<Rightarrow> int \<Rightarrow> int \<Rightarrow> Point2D list list \<Rightarrow> Point2D list list \<Rightarrow> Point2D list list" where
  "ReplaceSubPoints cx cy quadrantX quadrantY points subPoints0 =
     fold (\<lambda>i. fold (\<lambda>j subPoints.
        (let (qX, qY) = GetSubQuadrant cx cy (x2 (points ! i ! j)) (y2 (points ! i ! j));
             k = 2 - quadrantY + qY;
             l = 2 - quadrantX + qX
         in if k \<ge> 0 \<and> k < 5 \<and> l \<ge> 0 \<and> l < 5
            then subPoints[nat k := (subPoints ! nat k)[nat l := points ! i ! j]]
            else subPoints)) [0..<7])
       [0..<7] subPoints0"

definition GenerateNeighboringSubPoints ::
  "'g lib \<Rightarrow> Noise \<Rightarrow> real \<Rightarrow> real \<Rightarrow> real \<Rightarrow> real \<Rightarrow> Point2D list list \<Rightarrow> Point2D list list" where
  "GenerateNeighboringSubPoints L e cx cy x y points =
     (let cxInt = int_of_double cx;
          cyInt = int_of_double cy;
          (quadrantX, quadrantY) = GetSubQuadrant cx cy x y;
          subPoints = GenerateNeighboringPoints5 L e (2 * cxInt + quadrantX) (2 * cyInt + quadrantY);
          subPoints = map (map (\<lambda>p. \<lparr>x2 = x2 p / 2, y2 = y2 p / 2\<rparr>)) subPoints
      in ReplaceSubPoints cx cy quadrantX quadrantY points subPoints)"

subsection \<open>Level 2: the sub-segments\<close>

text \<open>
  One turn of a loop that looks for the nearest segment, on the state
  \<open>(nearestSegmentDist, nearestSegment)\<close>; \<^verbatim>\<open>GenerateSubSegments\<close> and
  \<^verbatim>\<open>ComputeColorWorley\<close> run it over each of their arrays in turn.
\<close>

definition NearestStep ::
  "'g lib \<Rightarrow> Point2D \<Rightarrow> Segment3D \<Rightarrow> real \<times> Segment3D \<Rightarrow> real \<times> Segment3D" where
  "NearestStep L p segment = (\<lambda>(nearestSegmentDist, nearestSegment).
     (let dist = fst (distToLineSegment L p (ProjectionZ_seg segment))
      in if dist < nearestSegmentDist then (dist, segment)
         else (nearestSegmentDist, nearestSegment)))"

definition NearestSegment ::
  "'g lib \<Rightarrow> Point2D \<Rightarrow> Segment3D list \<Rightarrow> Segment3D list \<Rightarrow> real \<times> Segment3D" where
  "NearestSegment L p segmentsBegin segmentsEnd =
     fold (NearestStep L p) segmentsEnd
       (fold (NearestStep L p) segmentsBegin (DBL_MAX, Segment3D_default))"

text \<open>
  The parameter on the nearest segment at which the point \<open>p\<close> is connected: the
  statements of \<^verbatim>\<open>GenerateSubSegments\<close> from \<^verbatim>\<open>double u = pointLineProjection(...)\<close> to
  the end of the \<^verbatim>\<open>if\<close>.
\<close>

definition ConnectionParameter :: "'g lib \<Rightarrow> Point2D \<Rightarrow> real \<Rightarrow> Segment3D \<Rightarrow> real" where
  "ConnectionParameter L p nearestSegmentDist nearestSegment =
     (let u = pointLineProjection L p (ProjectionZ_seg nearestSegment);
          u = clamp u 0 1
      in if u > 0 \<and> u < 1
         then (let v = u + nearestSegmentDist / length2D L (ProjectionZ_seg nearestSegment)
               in if v > 1 then 1 else v)
         else u)"

text \<open>
  The sub-segment of the refined point \<open>p\<close>: the body of the two outer loops of
  \<^verbatim>\<open>GenerateSubSegments\<close>, which is stored at the index \<open>3 * (i - 1) + j - 1\<close>.
\<close>

definition SubSegment :: "'g lib \<Rightarrow> Point2D \<Rightarrow> Segment3D list \<Rightarrow> Segment3D list \<Rightarrow> Segment3D" where
  "SubSegment L p segmentsBegin segmentsEnd =
     (let (nearestSegmentDist, nearestSegment) = NearestSegment L p segmentsBegin segmentsEnd;
          u = ConnectionParameter L p nearestSegmentDist nearestSegment;
          segmentEnd = lerp L nearestSegment u;
          segmentStart = \<lparr>x3 = x2 p, y3 = y2 p, z3 = z3 segmentEnd\<rparr>
      in \<lparr>a3 = segmentStart, b3 = segmentEnd\<rparr>)"

definition GenerateSubSegments ::
  "'g lib \<Rightarrow> Point2D list list \<Rightarrow> Segment3D list \<Rightarrow> Segment3D list \<Rightarrow> Segment3D list" where
  "GenerateSubSegments L points segmentsBegin segmentsEnd =
     fold (\<lambda>i. fold (\<lambda>j subSegments.
             subSegments[3 * (i - 1) + j - 1 :=
               SubSegment L (points ! i ! j) segmentsBegin segmentsEnd]) [1..<4])
       [1..<4] (replicate 9 Segment3D_default)"

subsection \<open>The field\<close>



section \<open>A reference library\<close>

text \<open>
  Modelled from the spec: the helpers of \<^verbatim>\<open>utils.h\<close>, \<^verbatim>\<open>math2d.h\<close>, \<^verbatim>\<open>math3d.h\<close> and
  \<^verbatim>\<open>spline.h\<close>, which are not in the sources, as the spec describes them: the linear remap
  of a value from one interval to another, the midpoint of a segment, the Catmull-Rom
  spline at parameter 0.5, the planar point-to-segment distance, the normalised projection
  parameter along a segment (0 at its start, 1 at its end), the planar length and the
  linear interpolation of position and elevation. The distance from a point to a segment
  is the distance to the point of the segment nearest to it: the start of the segment
  when the point projects before it, its end when the point projects after it, the foot
  of the perpendicular otherwise. A segment of length zero has one point, to which the
  distance is taken; the projection parameter along it, which the spec does not give, is
  left unspecified.
\<close>

definition ref_Remap :: "real \<Rightarrow> real \<Rightarrow> real \<Rightarrow> real \<Rightarrow> real \<Rightarrow> real" where
  "ref_Remap v lo1 hi1 lo2 hi2 = lo2 + (v - lo1) * (hi2 - lo2) / (hi1 - lo1)"

definition ref_MidPoint :: "Segment3D \<Rightarrow> Point3D" where
  "ref_MidPoint s =
     \<lparr>x3 = (x3 (a3 s) + x3 (b3 s)) / 2,
      y3 = (y3 (a3 s) + y3 (b3 s)) / 2,
      z3 = (z3 (a3 s) + z3 (b3 s)) / 2\<rparr>"

definition catmull_rom_half :: "real \<Rightarrow> real \<Rightarrow> real \<Rightarrow> real \<Rightarrow> real" where
  "catmull_rom_half c0 c1 c2 c3 = (- c0 + 9 * c1 + 9 * c2 - c3) / 16"

definition ref_SubdivideCatmullRomSpline ::
  "Point3D \<Rightarrow> Point3D \<Rightarrow> Point3D \<Rightarrow> Point3D \<Rightarrow> Point3D" where
  "ref_SubdivideCatmullRomSpline p0 p1 p2 p3 =
     \<lparr>x3 = catmull_rom_half (x3 p0) (x3 p1) (x3 p2) (x3 p3),
      y3 = catmull_rom_half (y3 p0) (y3 p1) (y3 p2) (y3 p3),
      z3 = catmull_rom_half (z3 p0) (z3 p1) (z3 p2) (z3 p3)\<rparr>"

definition dist_sq :: "Point2D \<Rightarrow> Point2D \<Rightarrow> real" where
  "dist_sq p q = (x2 p - x2 q) * (x2 p - x2 q) + (y2 p - y2 q) * (y2 p - y2 q)"

definition ref_dist :: "Point2D \<Rightarrow> Point2D \<Rightarrow> real" where
  "ref_dist p q = sqrt (dist_sq p q)"

definition ref_length2D :: "Segment2D \<Rightarrow> real" where
  "ref_length2D s = ref_dist (a2 s) (b2 s)"

definition dot_along :: "Point2D \<Rightarrow> Segment2D \<Rightarrow> real" where
  "dot_along p s =
     (x2 p - x2 (a2 s)) * (x2 (b2 s) - x2 (a2 s)) + (y2 p - y2 (a2 s)) * (y2 (b2 s) - y2 (a2 s))"

definition ref_pointLineProjection :: "Point2D \<Rightarrow> Segment2D \<Rightarrow> real" where
  "ref_pointLineProjection p s =
     (let l2 = dist_sq (a2 s) (b2 s)
      in if l2 = 0 then undefined else dot_along p s / l2)"

definition lerp2D :: "Segment2D \<Rightarrow> real \<Rightarrow> Point2D" where
  "lerp2D s u =
     \<lparr>x2 = x2 (a2 s) + u * (x2 (b2 s) - x2 (a2 s)),
      y2 = y2 (a2 s) + u * (y2 (b2 s) - y2 (a2 s))\<rparr>"

definition ref_distToLineSegment :: "Point2D \<Rightarrow> Segment2D \<Rightarrow> real \<times> Point2D" where
  "ref_distToLineSegment p s =
     (let t = dot_along p s;
          l2 = dist_sq (a2 s) (b2 s);
          c = (if t \<le> 0 then a2 s else if l2 \<le> t then b2 s else lerp2D s (t / l2))
      in (ref_dist p c, c))"

definition ref_lerp :: "Segment3D \<Rightarrow> real \<Rightarrow> Point3D" where
  "ref_lerp s u =
     \<lparr>x3 = x3 (a3 s) + u * (x3 (b3 s) - x3 (a3 s)),
      y3 = y3 (a3 s) + u * (y3 (b3 s) - y3 (a3 s)),
      z3 = z3 (a3 s) + u * (z3 (b3 s) - z3 (a3 s))\<rparr>"

definition ref_lerp_clamp :: "real \<Rightarrow> real \<Rightarrow> real \<Rightarrow> real" where
  "ref_lerp_clamp v w u = v + clamp u 0 1 * (w - v)"

text \<open>
  A generator and a control function to run the model with. The generator's state is an
  integer, the seed at first; a draw from \<open>[lo, hi)\<close> takes the state's residue modulo 4
  as the numerator of a fraction of the interval, and steps the state. The control
  function is a bowl with its lowest point at \<open>(7/2, 7/2)\<close>, cut off at 1, so that its
  values lie in \<open>[-1, 1]\<close>.
\<close>

definition ref_RandomGenerator :: "int \<Rightarrow> int" where
  "ref_RandomGenerator seed = seed"

definition ref_distribution :: "real \<Rightarrow> real \<Rightarrow> int \<Rightarrow> real \<times> int" where
  "ref_distribution lo hi g = (lo + (hi - lo) * (real_of_int (g mod 4) / 4), g + 1)"

definition ref_Perlin :: "real \<Rightarrow> real \<Rightarrow> real" where
  "ref_Perlin u v = min 1 (((u - 7 / 2) * (u - 7 / 2) + (v - 7 / 2) * (v - 7 / 2)) / 16 - 1)"

definition ref_lib :: "int lib" where
  "ref_lib =
     \<lparr>CACHE_X = 4,
      CACHE_Y = 4,
      RandomGenerator = ref_RandomGenerator,
      distribution = ref_distribution,
      Perlin = ref_Perlin,
      Remap = ref_Remap,
      MidPoint = ref_MidPoint,
      SubdivideCatmullRomSpline = ref_SubdivideCatmullRomSpline,
      distToLineSegment = ref_distToLineSegment,
      pointLineProjection = ref_pointLineProjection,
      length2D = ref_length2D,
      lerp = ref_lerp,
      lerp_clamp = ref_lerp_clamp\<rparr>"

text \<open>The engine of the examples: seed 0, margin 0.15, both rectangles from (0, 0) to (7, 7).\<close>

definition ref_config :: Noise where
  "ref_config =
     \<lparr>m_seed = 0,
      m_displayPoints = False,
      m_displaySegments = False,
      m_displayGrid = False,
      m_noiseTopLeft = \<lparr>x2 = 0, y2 = 0\<rparr>,
      m_noiseBottomRight = \<lparr>x2 = 7, y2 = 7\<rparr>,
      m_perlinTopLeft = \<lparr>x2 = 0, y2 = 0\<rparr>,
      m_perlinBottomRight = \<lparr>x2 = 7, y2 = 7\<rparr>,
      m_eps = 3 / 20,
      m_pointCache = []\<rparr>"

text \<open>A 7 by 7 neighbourhood for the examples: the centres of the cells \<open>(0, 0)\<close> to \<open>(6, 6)\<close>.\<close>

definition ref_points7 :: "Point2D list list" where
  "ref_points7 = map (\<lambda>i. map (\<lambda>j. \<lparr>x2 = real j + 1 / 2, y2 = real i + 1 / 2\<rparr>) [0..<7]) [0..<7]"



text \<open>
  A refined 5 by 5 neighbourhood and two arrays of 25 half-segments for the examples: the
  points with whole coordinates from \<open>(0, 0)\<close> to \<open>(4, 4)\<close>; as begin-halves the
  horizontal segments from \<open>x = 0\<close> to \<open>x = 4\<close> at \<open>y = 0, -1, ..., -24\<close>, rising from the
  elevation 0 to 1; as end-halves the same segments at \<open>y = 10, 11, ..., 34\<close>.
\<close>

definition ref_points5 :: "Point2D list list" where
  "ref_points5 = map (\<lambda>i. map (\<lambda>j. \<lparr>x2 = real j, y2 = real i\<rparr>) [0..<5]) [0..<5]"

definition ref_segmentsBegin :: "Segment3D list" where
  "ref_segmentsBegin =
     map (\<lambda>n. \<lparr>a3 = \<lparr>x3 = 0, y3 = - real n, z3 = 0\<rparr>, b3 = \<lparr>x3 = 4, y3 = - real n, z3 = 1\<rparr>\<rparr>) [0..<25]"

definition ref_segmentsEnd :: "Segment3D list" where
  "ref_segmentsEnd =
     map (\<lambda>n. \<lparr>a3 = \<lparr>x3 = 0, y3 = 10 + real n, z3 = 0\<rparr>, b3 = \<lparr>x3 = 4, y3 = 10 + real n, z3 = 1\<rparr>\<rparr>)
       [0..<25]"







section \<open>The specification's own notions\<close>

text \<open>
  The configuration the specification calls valid, in its words: \<open>eps\<close> lies in
  \<open>(0, 0.5)\<close>, and both rectangles are non-degenerate (non-zero area, well-ordered corners).
  This definition is written from the specification, not from the code.
\<close>

definition valid_configuration :: "Point2D \<Rightarrow> Point2D \<Rightarrow> Point2D \<Rightarrow> Point2D \<Rightarrow> real \<Rightarrow> bool" where
  "valid_configuration noiseTopLeft noiseBottomRight perlinTopLeft perlinBottomRight eps \<longleftrightarrow>
     0 < eps \<and> eps < 1 / 2
     \<and> x2 noiseTopLeft < x2 noiseBottomRight \<and> y2 noiseTopLeft < y2 noiseBottomRight
     \<and> x2 perlinTopLeft < x2 perlinBottomRight \<and> y2 perlinTopLeft < y2 perlinBottomRight"

text \<open>
  The 3 by 3 neighbourhood of the cell \<open>(i, j)\<close> in row-major, ascending order, and the
  first place of it whose elevation is the least of the neighbourhood. These two
  definitions are written from the specification, not from the code.
\<close>

definition neighborhood :: "nat \<Rightarrow> nat \<Rightarrow> (nat \<times> nat) list" where
  "neighborhood i j = List.product [i - 1 ..< i + 2] [j - 1 ..< j + 2]"

definition first_minimum :: "real list list \<Rightarrow> nat \<Rightarrow> nat \<Rightarrow> (nat \<times> nat) option" where
  "first_minimum elevations i j =
     find (\<lambda>(k, l). \<forall>(k', l') \<in> set (neighborhood i j). elevations ! k ! l \<le> elevations ! k' ! l')
       (neighborhood i j)"

text \<open>
  The quadrant address of the place in row \<open>k\<close> and column \<open>l\<close> of the refined 5 by 5
  neighbourhood, relative to the cell of the query point: the neighbourhood is centred,
  at row 2 and column 2, on the quadrant \<open>(quadrantX, quadrantY)\<close> of the query point. The
  49 points of level 1 are in their cells when the point in row \<open>i\<close> and column \<open>j\<close> lies
  in the cell \<open>(cx + j - 3, cy + i - 3)\<close>. Both definitions are written from the
  specification, not from the code.
\<close>

definition position_address :: "int \<Rightarrow> int \<Rightarrow> nat \<Rightarrow> nat \<Rightarrow> int \<times> int" where
  "position_address quadrantX quadrantY k l = (quadrantX + int l - 2, quadrantY + int k - 2)"

definition in_cells :: "real \<Rightarrow> real \<Rightarrow> Point2D list list \<Rightarrow> bool" where
  "in_cells cx cy points \<longleftrightarrow>
     (\<forall>i < 7. \<forall>j < 7.
        cx + real j - 3 \<le> x2 (points ! i ! j) \<and> x2 (points ! i ! j) < cx + real j - 2
        \<and> cy + real i - 3 \<le> y2 (points ! i ! j) \<and> y2 (points ! i ! j) < cy + real i - 2)"

text \<open>
  The connection parameter in the specification's words: the projection parameter is
  clamped to \<open>[0, 1]\<close>; if it then lies strictly between 0 and 1 it is advanced by
  \<open>distance / segmentLength\<close> and capped at 1. This definition is written from the
  specification, not from the code.
\<close>

definition spec_connection_parameter :: "real \<Rightarrow> real \<Rightarrow> real \<Rightarrow> real" where
  "spec_connection_parameter projection distance segmentLength =
     (let u = max 0 (min 1 projection)
      in if 0 < u \<and> u < 1 then min 1 (u + distance / segmentLength) else u)"

text \<open>The distance from a point to a segment that the searches for the nearest segment compare.\<close>

definition segment_distance :: "'g lib \<Rightarrow> Point2D \<Rightarrow> Segment3D \<Rightarrow> real" where
  "segment_distance L p segment = fst (distToLineSegment L p (ProjectionZ_seg segment))"


section \<open>Chain neighbours\<close>



section \<open>Loops as folds\<close>

text \<open>
  One turn of a search for the least value of \<open>E\<close>, on the state (least value so far,
  where it was found): the form that the source's searches take once their two nested
  loops are read as one loop over pairs.
\<close>

definition scan_step :: "('p \<Rightarrow> real) \<Rightarrow> 'p \<Rightarrow> real \<times> 'p \<Rightarrow> real \<times> 'p" where
  "scan_step E p = (\<lambda>(m, q). if E p < m then (E p, p) else (m, q))"

text \<open>The write \<^verbatim>\<open>M[k][l] = v\<close> to an array of arrays.\<close>

definition update2D :: "nat \<times> nat \<times> 'a \<Rightarrow> 'a list list \<Rightarrow> 'a list list" where
  "update2D = (\<lambda>(k, l, v) M. M[k := (M ! k)[l := v]])"

text \<open>
  What one turn of the last loop of \<^verbatim>\<open>GenerateNeighboringSubPoints\<close> writes, for the
  point of level 1 in row \<open>i\<close> and column \<open>j\<close>: the place and the point, or nothing.
\<close>

definition ReplaceWrite ::
  "real \<Rightarrow> real \<Rightarrow> int \<Rightarrow> int \<Rightarrow> Point2D list list \<Rightarrow> nat \<times> nat \<Rightarrow> (nat \<times> nat \<times> Point2D) option" where
  "ReplaceWrite cx cy quadrantX quadrantY points = (\<lambda>(i, j).
     (let (qX, qY) = GetSubQuadrant cx cy (x2 (points ! i ! j)) (y2 (points ! i ! j));
          k = 2 - quadrantY + qY;
          l = 2 - quadrantX + qX
      in if k \<ge> 0 \<and> k < 5 \<and> l \<ge> 0 \<and> l < 5 then Some (nat k, nat l, points ! i ! j) else None))"

lemma fold_product:
  "fold (\<lambda>k. fold (\<lambda>l. f k l) ys) xs = fold (\<lambda>(k, l). f k l) (List.product xs ys)"
proof (induction xs)
  case Nil
  show ?case by simp
next
  case (Cons x xs)
  have "fold (\<lambda>(k, l). f k l) (map (Pair x) ys) = fold (\<lambda>l. f x l) ys"
    by (simp add: fold_map comp_def)
  with Cons show ?case by (simp add: fun_eq_iff)
qed

lemma length_fold_list_update:
  "length (fold (\<lambda>z xs. xs[f z := g z]) zs xs) = length xs"
  by (induction zs arbitrary: xs) simp_all

lemma fold_list_update_nth:
  assumes "z \<in> set zs" and "inj_on f (set zs)" and "f z < length xs"
  shows "fold (\<lambda>z xs. xs[f z := g z]) zs xs ! f z = g z"
  using assms
proof (induction zs rule: rev_induct)
  case Nil
  then show ?case by simp
next
  case (snoc w zs)
  show ?case
  proof (cases "z = w")
    case True
    with snoc.prems show ?thesis by (simp add: length_fold_list_update)
  next
    case False
    with snoc.prems have zin: "z \<in> set zs" by simp
    from snoc.prems have inj: "inj_on f (set zs)" by (simp add: inj_on_def)
    from snoc.prems False zin have "f z \<noteq> f w" by (auto simp: inj_on_def)
    with snoc.IH [OF zin inj snoc.prems(3)] show ?thesis by simp
  qed
qed

lemma fold2_list_update_nth:
  assumes "i \<in> set is" and "j \<in> set js"
    and "inj_on (\<lambda>(i, j). f i j) (set is \<times> set js)"
    and "f i j < length xs"
  shows "fold (\<lambda>i. fold (\<lambda>j xs. xs[f i j := g i j]) js) is xs ! f i j = g i j"
proof -
  have "(\<lambda>(i, j) xs. xs[f i j := g i j]) = (\<lambda>z xs. xs[(\<lambda>(i, j). f i j) z := (\<lambda>(i, j). g i j) z])"
    by (simp add: fun_eq_iff split_beta)
  then have "fold (\<lambda>i. fold (\<lambda>j xs. xs[f i j := g i j]) js) is xs
      = fold (\<lambda>z xs. xs[(\<lambda>(i, j). f i j) z := (\<lambda>(i, j). g i j) z]) (List.product is js) xs"
    by (simp add: fold_product)
  moreover have "(i, j) \<in> set (List.product is js)" using assms(1,2) by simp
  moreover have "inj_on (\<lambda>(i, j). f i j) (set (List.product is js))" using assms(3) by simp
  moreover have "(\<lambda>(i, j). f i j) (i, j) < length xs" using assms(4) by simp
  ultimately show ?thesis
    using fold_list_update_nth [where z = "(i, j)" and f = "\<lambda>(i, j). f i j"
        and g = "\<lambda>(i, j). g i j" and zs = "List.product is js" and xs = xs]
    by simp
qed


lemma update2D_length: "length (fold update2D ws M) = length M"
  by (induction ws arbitrary: M) (simp_all add: update2D_def split_beta)

lemma update2D_row_length: "length (fold update2D ws M ! k) = length (M ! k)"
proof (induction ws arbitrary: M)
  case Nil
  show ?case by simp
next
  case (Cons w ws)
  obtain k' l' v where w: "w = (k', l', v)" by (cases w)
  have "length (update2D w M ! k) = length (M ! k)"
    by (cases "k' = k"; cases "k < length M") (simp_all add: w update2D_def list_update_beyond)
  with Cons show ?case by simp
qed

lemma update2D_other:
  assumes "(k', l') \<noteq> (k, l)"
  shows "update2D (k', l', v) M ! k ! l = M ! k ! l"
  using assms by (cases "k' = k"; cases "k < length M") (auto simp: update2D_def list_update_beyond)

lemma update2D_frame:
  assumes "\<forall>w \<in> set ws. (fst w, fst (snd w)) \<noteq> (k, l)"
  shows "fold update2D ws M ! k ! l = M ! k ! l"
  using assms
proof (induction ws arbitrary: M)
  case Nil
  show ?case by simp
next
  case (Cons w ws)
  obtain k' l' v where w: "w = (k', l', v)" by (cases w)
  from Cons.prems have "(k', l') \<noteq> (k, l)" by (simp add: w)
  then have "update2D w M ! k ! l = M ! k ! l" unfolding w by (rule update2D_other)
  with Cons show ?case by simp
qed

lemma update2D_last:
  assumes "(k, l, v) \<in> set ws"
    and "\<forall>w \<in> set ws. (fst w, fst (snd w)) = (k, l) \<longrightarrow> snd (snd w) = v"
    and "k < length M" and "l < length (M ! k)"
  shows "fold update2D ws M ! k ! l = v"
  using assms(1,2)
proof (induction ws rule: rev_induct)
  case Nil
  then show ?case by simp
next
  case (snoc w ws)
  obtain k' l' v' where w: "w = (k', l', v')" by (cases w)
  let ?M = "fold update2D ws M"
  show ?case
  proof (cases "(k', l') = (k, l)")
    case True
    with snoc.prems(2) have "v' = v" by (simp add: w)
    moreover have "k < length ?M" using assms(3) by (simp add: update2D_length)
    moreover have "l < length (?M ! k)" using assms(4) by (simp add: update2D_row_length)
    ultimately show ?thesis using True by (simp add: w update2D_def)
  next
    case False
    with snoc.prems(1) have "(k, l, v) \<in> set ws" by (auto simp: w)
    moreover from snoc.prems(2) have "\<forall>w \<in> set ws. (fst w, fst (snd w)) = (k, l) \<longrightarrow> snd (snd w) = v"
      by simp
    ultimately have "?M ! k ! l = v" by (rule snoc.IH)
    with update2D_other [OF False, of v' ?M] show ?thesis by (simp add: w)
  qed
qed

section \<open>The seed of a cell\<close>

lemma int32_id: "INT_MIN \<le> n \<Longrightarrow> n \<le> INT_MAX \<Longrightarrow> int32 n = n"
  unfolding int32_def INT_MIN_def INT_MAX_def
  by (rule signed_take_bit_int_eq_self) simp_all

lemma int32_sum: "int32 (int32 (int32 p + int32 q) + s) = int32 (p + q + s)"
  unfolding int32_def
  by (metis signed_take_bit_add signed_take_bit_signed_take_bit min.idem)

text \<open>
  C8, as the code has it. As long as \<open>541*i + 79*j + seed\<close> is an \<^verbatim>\<open>int\<close>, the seed of the
  cell \<open>(i, j)\<close> is the remainder of that sum by \<open>INT_MAX\<close> with the sign of the sum: the sum
  modulo \<open>INT_MAX\<close> when it is not negative, and minus the opposite sum modulo \<open>INT_MAX\<close>
  when it is negative.
\<close>

theorem GenerateSeedNoise_in_range:
  assumes "INT_MIN \<le> 541 * i + 79 * j + m_seed e"
    and "541 * i + 79 * j + m_seed e \<le> INT_MAX"
  shows "GenerateSeedNoise e i j =
           (if 0 \<le> 541 * i + 79 * j + m_seed e
            then (541 * i + 79 * j + m_seed e) mod INT_MAX
            else - ((- (541 * i + 79 * j + m_seed e)) mod INT_MAX))"
proof -
  have "GenerateSeedNoise e i j = (541 * i + 79 * j + m_seed e) smod INT_MAX"
    using assms by (simp add: GenerateSeedNoise_def int32_sum int32_id)
  then show ?thesis
    by (simp add: signed_modulo_int_def INT_MAX_def sgn_if)
qed

text \<open>With seed 0 the cell \<open>(0, 0)\<close> has the seed 0.\<close>

theorem GenerateSeedNoise_origin_witness:
  "GenerateSeedNoise ref_config 0 0 = 0"
  using GenerateSeedNoise_in_range [of 0 0 ref_config]
  by (simp add: ref_config_def INT_MIN_def INT_MAX_def)

text \<open>
  The sum modulo \<open>INT_MAX\<close> is not what the code returns for a negative sum: the cell
  \<open>(-1, 0)\<close> with seed 0 has the seed \<open>-541\<close>, and \<open>-541\<close> modulo \<open>INT_MAX\<close> is \<open>2147483106\<close>.
  Nor is it for a sum that is no \<^verbatim>\<open>int\<close>: for the cell \<open>(4000000, 0)\<close> the product
  \<open>541 * 4000000\<close> wraps around to \<open>-2130967296\<close>, which is the seed, while the sum has
  the remainder \<open>16516353\<close>, whichever sign convention the remainder follows.
\<close>

theorem GenerateSeedNoise_negative_counterexample:
  "GenerateSeedNoise ref_config (- 1) 0 = - 541
   \<and> (541 * (- 1) + 79 * 0 + m_seed ref_config) mod INT_MAX = 2147483106
   \<and> GenerateSeedNoise ref_config (- 1) 0
       \<noteq> (541 * (- 1) + 79 * 0 + m_seed ref_config) mod INT_MAX
   \<and> GenerateSeedNoise ref_config 4000000 0 = - 2130967296
   \<and> (541 * 4000000 + 79 * 0 + m_seed ref_config) mod INT_MAX = 16516353
   \<and> (541 * 4000000 + 79 * 0 + m_seed ref_config) smod INT_MAX = 16516353"
  by (simp add: GenerateSeedNoise_def int32_def INT_MAX_def signed_modulo_int_def ref_config_def)

section \<open>The segments of level 1\<close>

lemma scan_none:
  "\<forall>p \<in> set ps. \<not> E p < m0 \<Longrightarrow> fold (scan_step E) ps (m0, p0) = (m0, p0)"
  by (induction ps) (simp_all add: scan_step_def)

lemma scan_first_min:
  assumes "\<exists>p \<in> set ps. E p < m0"
  shows "\<exists>n < length ps. fold (scan_step E) ps (m0, p0) = (E (ps ! n), ps ! n)
           \<and> E (ps ! n) < m0
           \<and> (\<forall>n' < length ps. E (ps ! n) \<le> E (ps ! n'))
           \<and> (\<forall>n' < n. E (ps ! n) < E (ps ! n'))"
  using assms
proof (induction ps rule: rev_induct)
  case Nil
  then show ?case by simp
next
  case (snoc q ps)
  show ?case
  proof (cases "\<exists>p \<in> set ps. E p < m0")
    case True
    from snoc.IH [OF True] obtain n where n: "n < length ps"
      and f: "fold (scan_step E) ps (m0, p0) = (E (ps ! n), ps ! n)"
      and lt: "E (ps ! n) < m0"
      and le: "\<forall>n' < length ps. E (ps ! n) \<le> E (ps ! n')"
      and first: "\<forall>n' < n. E (ps ! n) < E (ps ! n')"
      by blast
    show ?thesis
    proof (cases "E q < E (ps ! n)")
      case True
      have "fold (scan_step E) (ps @ [q]) (m0, p0) = (E q, q)"
        using True f by (simp add: scan_step_def)
      moreover have "E q < m0" using True lt by simp
      moreover have "\<forall>n' < length (ps @ [q]). E q \<le> E ((ps @ [q]) ! n')"
        using True le by (auto simp: nth_append less_Suc_eq intro: order_trans less_imp_le)
      moreover have "\<forall>n' < length ps. E q < E ((ps @ [q]) ! n')"
        using True le by (auto simp: nth_append intro: less_le_trans)
      ultimately show ?thesis
        by (intro exI [of _ "length ps"]) simp
    next
      case False
      have "fold (scan_step E) (ps @ [q]) (m0, p0) = (E (ps ! n), ps ! n)"
        using False f by (simp add: scan_step_def)
      moreover have "\<forall>n' < length (ps @ [q]). E (ps ! n) \<le> E ((ps @ [q]) ! n')"
        using False le by (auto simp: nth_append less_Suc_eq)
      moreover have "\<forall>n' < n. E (ps ! n) < E ((ps @ [q]) ! n')"
        using first n by (auto simp: nth_append)
      ultimately show ?thesis
        using n lt by (intro exI [of _ n]) (simp add: nth_append)
    qed
  next
    case False
    then have none: "\<forall>p \<in> set ps. \<not> E p < m0" by blast
    with snoc.prems have q: "E q < m0" by auto
    from none have ge: "\<forall>n' < length ps. m0 \<le> E (ps ! n')"
      by (simp add: all_set_conv_all_nth not_less)
    have "fold (scan_step E) (ps @ [q]) (m0, p0) = (E q, q)"
      using scan_none [OF none] q by (simp add: scan_step_def)
    moreover have "\<forall>n' < length ps. E q < E ((ps @ [q]) ! n')"
      using ge q by (auto simp: nth_append intro: less_le_trans)
    moreover have "\<forall>n' < length (ps @ [q]). E q \<le> E ((ps @ [q]) ! n')"
      using ge q by (auto simp: nth_append less_Suc_eq intro: less_imp_le less_le_trans)
    ultimately show ?thesis
      using q by (intro exI [of _ "length ps"]) simp
  qed
qed

lemma LowestNeighbor_scan:
  "LowestNeighbor elevations i j =
     fold (scan_step (\<lambda>(k, l). elevations ! k ! l)) (neighborhood i j) (DBL_MAX, i, j)"
proof -
  have "(\<lambda>(k, l) (lowestNeighborElevation, lowestNeighborI, lowestNeighborJ).
            if elevations ! k ! l < lowestNeighborElevation then (elevations ! k ! l, k, l)
            else (lowestNeighborElevation, lowestNeighborI, lowestNeighborJ))
        = scan_step (\<lambda>(k, l). elevations ! k ! l)"
    by (auto simp: fun_eq_iff scan_step_def)
  then show ?thesis
    by (simp add: LowestNeighbor_def neighborhood_def fold_product)
qed

lemma LowestNeighbor_first_minimum:
  assumes "\<exists>p \<in> set (neighborhood i j). (case p of (k, l) \<Rightarrow> elevations ! k ! l) < DBL_MAX"
  shows "\<exists>k l. first_minimum elevations i j = Some (k, l)
           \<and> LowestNeighbor elevations i j = (elevations ! k ! l, k, l)
           \<and> (\<forall>(k', l') \<in> set (neighborhood i j). elevations ! k ! l \<le> elevations ! k' ! l')"
proof -
  let ?E = "\<lambda>(k, l). elevations ! k ! l"
  let ?ps = "neighborhood i j"
  from scan_first_min [of ?ps ?E DBL_MAX "(i, j)", OF assms]
  obtain n where n: "n < length ?ps"
    and f: "fold (scan_step ?E) ?ps (DBL_MAX, i, j) = (?E (?ps ! n), ?ps ! n)"
    and le: "\<forall>n' < length ?ps. ?E (?ps ! n) \<le> ?E (?ps ! n')"
    and first: "\<forall>n' < n. ?E (?ps ! n) < ?E (?ps ! n')"
    by blast
  obtain k l where kl: "?ps ! n = (k, l)" by (cases "?ps ! n")
  have all: "\<forall>p \<in> set ?ps. ?E (?ps ! n) \<le> ?E p"
    using le by (simp add: all_set_conv_all_nth)
  have P: "\<forall>(k', l') \<in> set ?ps. elevations ! k ! l \<le> elevations ! k' ! l'"
    using all kl by auto
  have notP: "\<forall>n' < n. \<not> (case ?ps ! n' of (k0, l0) \<Rightarrow>
                \<forall>(k', l') \<in> set ?ps. elevations ! k0 ! l0 \<le> elevations ! k' ! l')"
  proof (intro allI impI)
    fix n' assume n': "n' < n"
    obtain k0 l0 where k0: "?ps ! n' = (k0, l0)" by (cases "?ps ! n'")
    have "elevations ! k ! l < elevations ! k0 ! l0"
      using first n' kl k0 by (auto dest!: spec [of _ n'])
    moreover have "(k, l) \<in> set ?ps" using n kl by (metis nth_mem)
    ultimately show "\<not> (case ?ps ! n' of (k0, l0) \<Rightarrow>
                \<forall>(k', l') \<in> set ?ps. elevations ! k0 ! l0 \<le> elevations ! k' ! l')"
      unfolding k0 by (auto simp: not_le intro!: bexI [of _ "(k, l)"])
  qed
  have "first_minimum elevations i j = Some (k, l)"
    unfolding first_minimum_def find_Some_iff
    using n kl P notP by (intro exI [of _ n]) auto
  moreover have "LowestNeighbor elevations i j = (elevations ! k ! l, k, l)"
    using f kl by (simp add: LowestNeighbor_scan)
  ultimately show ?thesis using P by blast
qed

lemma ComputeElevations_nth:
  assumes "k < 7" and "l < 7"
  shows "ComputeElevations L e points ! k ! l =
           (Perlin L
              (Remap L (x2 (points ! k ! l)) (x2 (m_noiseTopLeft e)) (x2 (m_noiseBottomRight e))
                 (x2 (m_perlinTopLeft e)) (x2 (m_perlinBottomRight e)))
              (Remap L (y2 (points ! k ! l)) (y2 (m_noiseTopLeft e)) (y2 (m_noiseBottomRight e))
                 (y2 (m_perlinTopLeft e)) (y2 (m_perlinBottomRight e))) + 1) / 2"
  using assms by (simp add: ComputeElevations_def Let_def)

lemma in_neighborhood:
  "(k', l') \<in> set (neighborhood i j) \<longleftrightarrow>
     i - 1 \<le> k' \<and> k' \<le> i + 1 \<and> j - 1 \<le> l' \<and> l' \<le> j + 1"
  by (auto simp: neighborhood_def)

lemma cell_index_inj:
  "inj_on (\<lambda>(i, j). 5 * (i - 1) + j - 1) (set [1..<6] \<times> set [1..<6])"
proof -
  have R: "i = i' \<and> j = j'"
    if "5 * (i - 1) + j - 1 = 5 * (i' - 1) + j' - 1"
      and "1 \<le> i" "i < 6" "1 \<le> j" "j < 6" "1 \<le> i'" "i' < 6" "1 \<le> j'" "j' < 6"
    for i j i' j' :: nat
  proof
    show "i = i'" using that by linarith
    then show "j = j'" using that by linarith
  qed
  have "inj_on (\<lambda>(i, j). 5 * (i - 1) + j - 1) ({1..<6::nat} \<times> {1..<6::nat})"
  proof (rule inj_onI)
    fix p q :: "nat \<times> nat"
    assume p: "p \<in> {1..<6} \<times> {1..<6}" and q: "q \<in> {1..<6} \<times> {1..<6}"
      and eq: "(case p of (i, j) \<Rightarrow> 5 * (i - 1) + j - 1) = (case q of (i, j) \<Rightarrow> 5 * (i - 1) + j - 1)"
    obtain i j where pp: "p = (i, j)" by (cases p)
    obtain i' j' where qq: "q = (i', j')" by (cases q)
    from p q eq have "i = i' \<and> j = j'"
      unfolding pp qq by (intro R) simp_all
    then show "p = q" by (simp add: pp qq)
  qed
  then show ?thesis by (simp only: set_upt)
qed

lemma GenerateSegments_nth:
  assumes "1 \<le> i" and "i \<le> 5" and "1 \<le> j" and "j \<le> 5"
  shows "GenerateSegments L e points ! (5 * (i - 1) + j - 1) =
           LevelOneSegment points (ComputeElevations L e points) i j"
proof -
  have i: "i \<in> set [1..<6]" and j: "j \<in> set [1..<6]"
    using assms by (simp_all only: set_upt) simp_all
  have len: "5 * (i - 1) + j - 1 < length (replicate 25 Segment3D_default)"
    using assms by simp
  show ?thesis
    unfolding GenerateSegments_def Let_def
    by (rule fold2_list_update_nth [OF i j cell_index_inj len])
qed

text \<open>
  C3. Let every elevation that the control function yields be below \<open>DBL_MAX\<close>, the value
  the search starts from (every control function with values in \<open>[-1, 1]\<close> is such). Then
  for every cell \<open>(i, j)\<close> of the inner 5 by 5 grid the segment stored at
  \<open>5 * (i - 1) + j - 1\<close> goes from the point of the cell, at its elevation, to the point at
  the first place \<open>(k, l)\<close> of the 3 by 3 neighbourhood, in row-major order, whose elevation
  is the least of the neighbourhood, at that elevation; and the elevation of the end of
  the segment is at most every elevation of the neighbourhood.
\<close>

theorem GenerateSegments_first_minimum:
  assumes "1 \<le> i" and "i \<le> 5" and "1 \<le> j" and "j \<le> 5"
    and "\<And>u v. (Perlin L u v + 1) / 2 < DBL_MAX"
  shows "\<exists>k l. first_minimum (ComputeElevations L e points) i j = Some (k, l)
           \<and> GenerateSegments L e points ! (5 * (i - 1) + j - 1) =
               \<lparr>a3 = \<lparr>x3 = x2 (points ! i ! j), y3 = y2 (points ! i ! j),
                      z3 = ComputeElevations L e points ! i ! j\<rparr>,
                b3 = \<lparr>x3 = x2 (points ! k ! l), y3 = y2 (points ! k ! l),
                      z3 = ComputeElevations L e points ! k ! l\<rparr>\<rparr>
           \<and> (\<forall>k' l'. i - 1 \<le> k' \<and> k' \<le> i + 1 \<and> j - 1 \<le> l' \<and> l' \<le> j + 1 \<longrightarrow>
                 z3 (b3 (GenerateSegments L e points ! (5 * (i - 1) + j - 1)))
                   \<le> ComputeElevations L e points ! k' ! l')"
proof -
  let ?el = "ComputeElevations L e points"
  have "(i, j) \<in> set (neighborhood i j)"
    using assms(1,3) by (auto simp: neighborhood_def)
  moreover have "?el ! i ! j < DBL_MAX"
    using assms(2,4,5) by (simp add: ComputeElevations_nth)
  ultimately have "\<exists>p \<in> set (neighborhood i j). (case p of (k, l) \<Rightarrow> ?el ! k ! l) < DBL_MAX"
    by (intro bexI [of _ "(i, j)"]) simp_all
  from LowestNeighbor_first_minimum [OF this]
  obtain k l where fm: "first_minimum ?el i j = Some (k, l)"
    and ln: "LowestNeighbor ?el i j = (?el ! k ! l, k, l)"
    and le: "\<forall>(k', l') \<in> set (neighborhood i j). ?el ! k ! l \<le> ?el ! k' ! l'"
    by blast
  have seg: "GenerateSegments L e points ! (5 * (i - 1) + j - 1) =
               \<lparr>a3 = \<lparr>x3 = x2 (points ! i ! j), y3 = y2 (points ! i ! j), z3 = ?el ! i ! j\<rparr>,
                b3 = \<lparr>x3 = x2 (points ! k ! l), y3 = y2 (points ! k ! l), z3 = ?el ! k ! l\<rparr>\<rparr>"
    using GenerateSegments_nth [OF assms(1-4), of L e points]
    by (simp add: LevelOneSegment_def ln)
  have "\<forall>k' l'. i - 1 \<le> k' \<and> k' \<le> i + 1 \<and> j - 1 \<le> l' \<and> l' \<le> j + 1 \<longrightarrow>
          ?el ! k ! l \<le> ?el ! k' ! l'"
  proof (intro allI impI)
    fix k' l' assume "i - 1 \<le> k' \<and> k' \<le> i + 1 \<and> j - 1 \<le> l' \<and> l' \<le> j + 1"
    then have "(k', l') \<in> set (neighborhood i j)" by (simp add: in_neighborhood)
    with le show "?el ! k ! l \<le> ?el ! k' ! l'" by blast
  qed
  with fm seg show ?thesis by auto
qed

text \<open>
  In the bowl the cell \<open>(1, 1)\<close> has its lowest neighbour at \<open>(2, 2)\<close>, towards the centre.
\<close>

lemma ref_Perlin_bounded: "(Perlin ref_lib u v + 1) / 2 < DBL_MAX"
proof -
  have "(Perlin ref_lib u v + 1) / 2 \<le> 1" by (simp add: ref_lib_def ref_Perlin_def)
  moreover have "(1::real) < DBL_MAX" by (simp add: DBL_MAX_def)
  ultimately show ?thesis by simp
qed

lemma ref_points7_nth: "k < 7 \<Longrightarrow> l < 7 \<Longrightarrow> ref_points7 ! k ! l = \<lparr>x2 = real l + 1 / 2, y2 = real k + 1 / 2\<rparr>"
  by (simp add: ref_points7_def)

lemma ref_elevations_nth:
  "k < 7 \<Longrightarrow> l < 7 \<Longrightarrow> ComputeElevations ref_lib ref_config ref_points7 ! k ! l
     = (min 1 (((real l - 3) * (real l - 3) + (real k - 3) * (real k - 3)) / 16 - 1) + 1) / 2"
proof -
  have r: "(real n * 7 + 7 / 2) / 7 - 7 / 2 = real n - 3" for n
    by (simp add: field_simps)
  assume "k < 7" and "l < 7"
  then show ?thesis
    by (simp add: ComputeElevations_nth ref_points7_nth ref_lib_def ref_config_def ref_Remap_def
        ref_Perlin_def r)
qed

lemma ref_first_minimum_1_1:
  "first_minimum (ComputeElevations ref_lib ref_config ref_points7) 1 1 = Some (2, 2)"
  by (simp add: first_minimum_def neighborhood_def ref_elevations_nth)

theorem GenerateSegments_first_minimum_witness:
  "first_minimum (ComputeElevations ref_lib ref_config ref_points7) 1 1 = Some (2, 2)
   \<and> GenerateSegments ref_lib ref_config ref_points7 ! 0
       = \<lparr>a3 = \<lparr>x3 = 3 / 2, y3 = 3 / 2, z3 = 1 / 4\<rparr>,
          b3 = \<lparr>x3 = 5 / 2, y3 = 5 / 2, z3 = 1 / 16\<rparr>\<rparr>
   \<and> z3 (b3 (GenerateSegments ref_lib ref_config ref_points7 ! 0))
       \<le> ComputeElevations ref_lib ref_config ref_points7 ! 0 ! 2"
proof -
  have b: "\<And>u v. (Perlin ref_lib u v + 1) / 2 < DBL_MAX" by (rule ref_Perlin_bounded)
  from GenerateSegments_first_minimum [of 1 1 ref_lib ref_config ref_points7, OF _ _ _ _ b]
  obtain k l where "first_minimum (ComputeElevations ref_lib ref_config ref_points7) 1 1 = Some (k, l)"
    and s: "GenerateSegments ref_lib ref_config ref_points7 ! (5 * (1 - 1) + 1 - 1) =
               \<lparr>a3 = \<lparr>x3 = x2 (ref_points7 ! 1 ! 1), y3 = y2 (ref_points7 ! 1 ! 1),
                      z3 = ComputeElevations ref_lib ref_config ref_points7 ! 1 ! 1\<rparr>,
                b3 = \<lparr>x3 = x2 (ref_points7 ! k ! l), y3 = y2 (ref_points7 ! k ! l),
                      z3 = ComputeElevations ref_lib ref_config ref_points7 ! k ! l\<rparr>\<rparr>"
    and m: "\<forall>k' l'. 1 - 1 \<le> k' \<and> k' \<le> 1 + 1 \<and> 1 - 1 \<le> l' \<and> l' \<le> 1 + 1 \<longrightarrow>
                 z3 (b3 (GenerateSegments ref_lib ref_config ref_points7 ! (5 * (1 - 1) + 1 - 1)))
                   \<le> ComputeElevations ref_lib ref_config ref_points7 ! k' ! l'"
    by auto
  with ref_first_minimum_1_1 have kl: "k = 2" "l = 2" by simp_all
  from s have "GenerateSegments ref_lib ref_config ref_points7 ! 0
       = \<lparr>a3 = \<lparr>x3 = 3 / 2, y3 = 3 / 2, z3 = 1 / 4\<rparr>,
          b3 = \<lparr>x3 = 5 / 2, y3 = 5 / 2, z3 = 1 / 16\<rparr>\<rparr>"
    unfolding kl by (simp add: ref_points7_nth ref_elevations_nth)
  moreover from m [rule_format, of 0 2]
  have "z3 (b3 (GenerateSegments ref_lib ref_config ref_points7 ! 0))
       \<le> ComputeElevations ref_lib ref_config ref_points7 ! 0 ! 2" by simp
  ultimately show ?thesis using ref_first_minimum_1_1 by simp
qed

section \<open>Subdivision of a zero-length segment\<close>

















section \<open>Points in their cells\<close>

text \<open>
  C5. For a margin \<open>eps\<close> in \<open>(0, 0.5)\<close> and a distribution that draws from \<open>[lo, hi]\<close>
  whenever \<open>lo < hi\<close>, the point of every cell \<open>(i, j)\<close> lies in
  \<open>[i + eps, i + 1 - eps] \<times> [j + eps, j + 1 - eps]\<close>, hence strictly inside the cell.
\<close>

theorem GeneratePoint_in_cell:
  assumes "0 < m_eps e" and "m_eps e < 1 / 2"
    and "\<And>lo hi g. lo < hi \<Longrightarrow>
            lo \<le> fst (distribution L lo hi g) \<and> fst (distribution L lo hi g) \<le> hi"
  shows "real_of_int i + m_eps e \<le> x2 (GeneratePoint L e i j)
       \<and> x2 (GeneratePoint L e i j) \<le> real_of_int i + 1 - m_eps e
       \<and> real_of_int j + m_eps e \<le> y2 (GeneratePoint L e i j)
       \<and> y2 (GeneratePoint L e i j) \<le> real_of_int j + 1 - m_eps e
       \<and> real_of_int i < x2 (GeneratePoint L e i j)
       \<and> x2 (GeneratePoint L e i j) < real_of_int i + 1
       \<and> real_of_int j < y2 (GeneratePoint L e i j)
       \<and> y2 (GeneratePoint L e i j) < real_of_int j + 1"
proof -
  have lt: "m_eps e < 1 - m_eps e" using assms(2) by simp
  define g0 where "g0 = RandomGenerator L (GenerateSeedNoise e i j)"
  define g1 where "g1 = snd (distribution L (m_eps e) (1 - m_eps e) g0)"
  define px where "px = fst (distribution L (m_eps e) (1 - m_eps e) g0)"
  define py where "py = fst (distribution L (m_eps e) (1 - m_eps e) g1)"
  have P: "GeneratePoint L e i j = \<lparr>x2 = real_of_int i + px, y2 = real_of_int j + py\<rparr>"
    by (simp add: GeneratePoint_def Let_def split_beta g0_def g1_def px_def py_def)
  have bx: "m_eps e \<le> px \<and> px \<le> 1 - m_eps e"
    unfolding px_def by (rule assms(3) [OF lt])
  have by': "m_eps e \<le> py \<and> py \<le> 1 - m_eps e"
    unfolding py_def by (rule assms(3) [OF lt])
  show ?thesis
    using bx by' assms(1) by (simp add: P)
qed

lemma ref_distribution_range:
  assumes "lo < hi"
  shows "lo \<le> fst (ref_distribution lo hi g) \<and> fst (ref_distribution lo hi g) \<le> hi"
proof -
  define f where "f = real_of_int (g mod 4) / 4"
  have f0: "0 \<le> f" by (simp add: f_def)
  have "g mod 4 < 4" by simp
  then have "real_of_int (g mod 4) < 4" by linarith
  then have f1: "f \<le> 1" by (simp add: f_def)
  have d: "0 \<le> hi - lo" using assms by simp
  have a: "0 \<le> (hi - lo) * f" using d f0 by (rule mult_nonneg_nonneg)
  have b: "(hi - lo) * f \<le> (hi - lo) * 1" using f1 d by (rule mult_left_mono)
  show ?thesis using a b by (simp add: ref_distribution_def f_def)
qed

text \<open>The reference engine's point of the cell \<open>(2, 3)\<close>.\<close>

theorem GeneratePoint_in_cell_witness:
  "GeneratePoint ref_lib ref_config 2 3 = \<lparr>x2 = 107 / 40, y2 = 63 / 20\<rparr>
   \<and> 2 + 3 / 20 \<le> x2 (GeneratePoint ref_lib ref_config 2 3)
   \<and> x2 (GeneratePoint ref_lib ref_config 2 3) \<le> 2 + 1 - 3 / 20
   \<and> 3 + 3 / 20 \<le> y2 (GeneratePoint ref_lib ref_config 2 3)
   \<and> y2 (GeneratePoint ref_lib ref_config 2 3) \<le> 3 + 1 - 3 / 20"
proof -
  have v: "GeneratePoint ref_lib ref_config 2 3 = \<lparr>x2 = 107 / 40, y2 = 63 / 20\<rparr>"
    by (simp add: GeneratePoint_def GenerateSeedNoise_def int32_def INT_MAX_def
        signed_modulo_int_def ref_config_def ref_lib_def ref_RandomGenerator_def
        ref_distribution_def)
  have e1: "0 < m_eps ref_config" and e2: "m_eps ref_config < 1 / 2"
    by (simp_all add: ref_config_def)
  have d: "\<And>lo hi g. lo < hi \<Longrightarrow>
            lo \<le> fst (distribution ref_lib lo hi g) \<and> fst (distribution ref_lib lo hi g) \<le> hi"
    using ref_distribution_range by (simp add: ref_lib_def)
  from GeneratePoint_in_cell [of ref_config ref_lib 2 3, OF e1 e2 d] v
  show ?thesis by (simp add: ref_config_def)
qed

section \<open>The point cache\<close>

lemma sdiv_2_nat: "int n sdiv 2 = int (n div 2)"
  by (simp add: signed_divide_int_def sgn_if zdiv_int)

lemma sdiv_2_neg_nat: "(- int n) sdiv 2 = - int (n div 2)"
  by (simp add: signed_divide_int_def sgn_if zdiv_int)

lemma InitPointCache_row_nth:
  assumes "(- int (CACHE_Y L)) sdiv 2 \<le> j" and "j < int (CACHE_Y L) sdiv 2"
  shows "InitPointCache_row L e i ! nat (j + int (CACHE_Y L) sdiv 2) = GeneratePoint L e i j"
proof -
  let ?c = "int (CACHE_Y L) sdiv 2"
  let ?zs = "[(- int (CACHE_Y L)) sdiv 2 .. ?c - 1]"
  have mem: "j \<in> set ?zs" using assms by simp
  have inj: "inj_on (\<lambda>y. nat (y + ?c)) (set ?zs)"
    by (auto simp: inj_on_def sdiv_2_nat sdiv_2_neg_nat)
  have len: "nat (j + ?c) < length (replicate (CACHE_Y L) Point2D_default)"
    using assms by (simp add: sdiv_2_nat sdiv_2_neg_nat)
  show ?thesis
    unfolding InitPointCache_row_def
    by (rule fold_list_update_nth [where f = "\<lambda>y. nat (y + ?c)" and g = "GeneratePoint L e i", OF mem inj len])
qed

lemma InitPointCache_nth:
  assumes "(- int (CACHE_X L)) sdiv 2 \<le> i" and "i < int (CACHE_X L) sdiv 2"
  shows "m_pointCache (InitPointCache L e) ! nat (i + int (CACHE_X L) sdiv 2) = InitPointCache_row L e i"
proof -
  let ?c = "int (CACHE_X L) sdiv 2"
  let ?zs = "[(- int (CACHE_X L)) sdiv 2 .. ?c - 1]"
  have mem: "i \<in> set ?zs" using assms by simp
  have inj: "inj_on (\<lambda>x. nat (x + ?c)) (set ?zs)"
    by (auto simp: inj_on_def sdiv_2_nat sdiv_2_neg_nat)
  have len: "nat (i + ?c) < length (replicate (CACHE_X L) ([]::Point2D list))"
    using assms by (simp add: sdiv_2_nat sdiv_2_neg_nat)
  show ?thesis
    unfolding InitPointCache_def
    using fold_list_update_nth [where f = "\<lambda>x. nat (x + ?c)" and g = "InitPointCache_row L e", OF mem inj len]
    by simp
qed

lemma GeneratePoint_cache_irrelevant:
  "GeneratePoint L (e\<lparr>m_pointCache := c\<rparr>) i j = GeneratePoint L e i j"
  by (simp add: GeneratePoint_def GenerateSeedNoise_def)

lemma GeneratePoint_InitPointCache:
  "GeneratePoint L (InitPointCache L e) i j = GeneratePoint L e i j"
  by (simp add: InitPointCache_def GeneratePoint_cache_irrelevant)

lemma GeneratePointCached_InitPointCache:
  "GeneratePointCached L (InitPointCache L e) i j = GeneratePoint L e i j"
  by (simp add: GeneratePointCached_def InitPointCache_nth InitPointCache_row_nth GeneratePoint_InitPointCache)

text \<open>
  C4. In an engine that the constructor has built, the cached generation of the point of
  a cell and its direct generation agree, for every cell: inside the window, on its
  boundary and outside.
\<close>

theorem GeneratePointCached_transparent:
  assumes "Noise_new L noiseTopLeft noiseBottomRight perlinTopLeft perlinBottomRight seed eps
             displayPoints displaySegments displayGrid = Inr e"
  shows "GeneratePointCached L e i j = GeneratePoint L e i j"
  using assms
  by (auto simp: Noise_new_def GeneratePointCached_InitPointCache GeneratePoint_InitPointCache)

text \<open>
  The reference engine has a window of 4 by 4 cells, from \<open>-2\<close> to \<open>1\<close>: the cell
  \<open>(-2, 1)\<close> is on its boundary, the cell \<open>(2, 3)\<close> outside.
\<close>

theorem GeneratePointCached_transparent_witness:
  "GeneratePointCached ref_lib (InitPointCache ref_lib ref_config) (- 2) 1
     = GeneratePoint ref_lib (InitPointCache ref_lib ref_config) (- 2) 1
   \<and> GeneratePoint ref_lib (InitPointCache ref_lib ref_config) (- 2) 1
     = \<lparr>x2 = - 67 / 40, y2 = 3 / 2\<rparr>
   \<and> GeneratePointCached ref_lib (InitPointCache ref_lib ref_config) 2 3
     = GeneratePoint ref_lib (InitPointCache ref_lib ref_config) 2 3"
proof -
  have n: "Noise_new ref_lib \<lparr>x2 = 0, y2 = 0\<rparr> \<lparr>x2 = 7, y2 = 7\<rparr> \<lparr>x2 = 0, y2 = 0\<rparr> \<lparr>x2 = 7, y2 = 7\<rparr>
             0 (3 / 20) False False False = Inr (InitPointCache ref_lib ref_config)"
    by (simp add: Noise_new_def ref_config_def)
  have v: "GeneratePoint ref_lib ref_config (- 2) 1 = \<lparr>x2 = - 67 / 40, y2 = 3 / 2\<rparr>"
    by (simp add: GeneratePoint_def GenerateSeedNoise_def int32_def INT_MAX_def
        signed_modulo_int_def ref_config_def ref_lib_def ref_RandomGenerator_def
        ref_distribution_def)
  show ?thesis
    using GeneratePointCached_transparent [OF n, of "- 2" 1]
      GeneratePointCached_transparent [OF n, of 2 3] v
    by (simp add: GeneratePoint_InitPointCache)
qed

section \<open>Construction\<close>

text \<open>
  C2, as the code has it. The constructor validates nothing: for every margin and every
  four corners it returns an engine that holds the arguments unchanged and whose cache
  holds, for every cell of the window, the point of that cell.
\<close>

theorem Noise_new_no_validation:
  "\<exists>e. Noise_new L noiseTopLeft noiseBottomRight perlinTopLeft perlinBottomRight seed eps
           displayPoints displaySegments displayGrid = Inr e
     \<and> m_seed e = seed \<and> m_eps e = eps
     \<and> m_displayPoints e = displayPoints \<and> m_displaySegments e = displaySegments
     \<and> m_displayGrid e = displayGrid
     \<and> m_noiseTopLeft e = noiseTopLeft \<and> m_noiseBottomRight e = noiseBottomRight
     \<and> m_perlinTopLeft e = perlinTopLeft \<and> m_perlinBottomRight e = perlinBottomRight
     \<and> (\<forall>i j. (- int (CACHE_X L)) sdiv 2 \<le> i \<and> i < int (CACHE_X L) sdiv 2
             \<and> (- int (CACHE_Y L)) sdiv 2 \<le> j \<and> j < int (CACHE_Y L) sdiv 2
          \<longrightarrow> m_pointCache e ! nat (i + int (CACHE_X L) sdiv 2) ! nat (j + int (CACHE_Y L) sdiv 2)
              = GeneratePoint L e i j)"
  by (simp add: Noise_new_def InitPointCache_nth InitPointCache_row_nth GeneratePoint_InitPointCache)
     (simp add: InitPointCache_def)

theorem Noise_new_no_validation_witness:
  "\<exists>e. Noise_new ref_lib \<lparr>x2 = 0, y2 = 0\<rparr> \<lparr>x2 = 7, y2 = 7\<rparr> \<lparr>x2 = 0, y2 = 0\<rparr> \<lparr>x2 = 7, y2 = 7\<rparr>
           0 (3 / 20) False False False = Inr e
     \<and> m_eps e = 3 / 20
     \<and> m_pointCache e ! 0 ! 3 = GeneratePoint ref_lib e (- 2) 1"
proof -
  from Noise_new_no_validation [of ref_lib "\<lparr>x2 = 0, y2 = 0\<rparr>" "\<lparr>x2 = 7, y2 = 7\<rparr>"
      "\<lparr>x2 = 0, y2 = 0\<rparr>" "\<lparr>x2 = 7, y2 = 7\<rparr>" 0 "3 / 20" False False False]
  obtain e where n: "Noise_new ref_lib \<lparr>x2 = 0, y2 = 0\<rparr> \<lparr>x2 = 7, y2 = 7\<rparr> \<lparr>x2 = 0, y2 = 0\<rparr>
        \<lparr>x2 = 7, y2 = 7\<rparr> 0 (3 / 20) False False False = Inr e"
    and m: "m_eps e = 3 / 20"
    and c: "\<forall>i j. (- int (CACHE_X ref_lib)) sdiv 2 \<le> i \<and> i < int (CACHE_X ref_lib) sdiv 2
             \<and> (- int (CACHE_Y ref_lib)) sdiv 2 \<le> j \<and> j < int (CACHE_Y ref_lib) sdiv 2
          \<longrightarrow> m_pointCache e ! nat (i + int (CACHE_X ref_lib) sdiv 2)
                ! nat (j + int (CACHE_Y ref_lib) sdiv 2)
              = GeneratePoint ref_lib e i j"
    by blast
  from c [rule_format, of "- 2" 1]
  have "m_pointCache e ! 0 ! 3 = GeneratePoint ref_lib e (- 2) 1"
    by (simp add: ref_lib_def signed_divide_int_def)
  with n m show ?thesis by blast
qed

text \<open>
  A margin of 0.7 and four corners at the origin are not a valid configuration, and the
  constructor returns an engine for them.
\<close>

theorem Noise_new_invalid_counterexample:
  "\<not> valid_configuration \<lparr>x2 = 0, y2 = 0\<rparr> \<lparr>x2 = 0, y2 = 0\<rparr> \<lparr>x2 = 0, y2 = 0\<rparr> \<lparr>x2 = 0, y2 = 0\<rparr> (7 / 10)
   \<and> Noise_new ref_lib \<lparr>x2 = 0, y2 = 0\<rparr> \<lparr>x2 = 0, y2 = 0\<rparr> \<lparr>x2 = 0, y2 = 0\<rparr> \<lparr>x2 = 0, y2 = 0\<rparr>
        0 (7 / 10) False False False
      = Inr (InitPointCache ref_lib
          \<lparr>m_seed = 0, m_displayPoints = False, m_displaySegments = False, m_displayGrid = False,
           m_noiseTopLeft = \<lparr>x2 = 0, y2 = 0\<rparr>, m_noiseBottomRight = \<lparr>x2 = 0, y2 = 0\<rparr>,
           m_perlinTopLeft = \<lparr>x2 = 0, y2 = 0\<rparr>, m_perlinBottomRight = \<lparr>x2 = 0, y2 = 0\<rparr>,
           m_eps = 7 / 10, m_pointCache = []\<rparr>)"
  by (simp add: valid_configuration_def Noise_new_def)

section \<open>The refined neighbourhood\<close>

lemma fold_map_filter:
  "fold (\<lambda>z M. case w z of None \<Rightarrow> M | Some t \<Rightarrow> f t M) zs M = fold f (List.map_filter w zs) M"
  by (induction zs arbitrary: M) (simp_all split: option.split)

lemma set_map_filter: "set (List.map_filter w zs) = {t. \<exists>z \<in> set zs. w z = Some t}"
  by (induction zs) (auto split: option.split)

lemma ReplaceSubPoints_writes:
  "ReplaceSubPoints cx cy quadrantX quadrantY points subPoints =
     fold update2D
       (List.map_filter (ReplaceWrite cx cy quadrantX quadrantY points) (List.product [0..<7] [0..<7]))
       subPoints"
proof -
  have "(\<lambda>(i, j) subPoints.
        (let (qX, qY) = GetSubQuadrant cx cy (x2 (points ! i ! j)) (y2 (points ! i ! j));
             k = 2 - quadrantY + qY;
             l = 2 - quadrantX + qX
         in if k \<ge> 0 \<and> k < 5 \<and> l \<ge> 0 \<and> l < 5
            then subPoints[nat k := (subPoints ! nat k)[nat l := points ! i ! j]]
            else subPoints))
     = (\<lambda>z M. case ReplaceWrite cx cy quadrantX quadrantY points z of
                 None \<Rightarrow> M | Some t \<Rightarrow> update2D t M)"
  proof (intro ext)
    fix z :: "nat \<times> nat" and M :: "Point2D list list"
    obtain i j where z: "z = (i, j)" by (cases z)
    obtain qX qY where g: "GetSubQuadrant cx cy (x2 (points ! i ! j)) (y2 (points ! i ! j)) = (qX, qY)"
      by (cases "GetSubQuadrant cx cy (x2 (points ! i ! j)) (y2 (points ! i ! j))")
    show "(case z of (i, j) \<Rightarrow> \<lambda>subPoints.
        (let (qX, qY) = GetSubQuadrant cx cy (x2 (points ! i ! j)) (y2 (points ! i ! j));
             k = 2 - quadrantY + qY;
             l = 2 - quadrantX + qX
         in if k \<ge> 0 \<and> k < 5 \<and> l \<ge> 0 \<and> l < 5
            then subPoints[nat k := (subPoints ! nat k)[nat l := points ! i ! j]]
            else subPoints)) M
     = (case ReplaceWrite cx cy quadrantX quadrantY points z of
                 None \<Rightarrow> M | Some t \<Rightarrow> update2D t M)"
      unfolding z ReplaceWrite_def by (simp add: g update2D_def Let_def)
  qed
  then show ?thesis
    by (simp add: ReplaceSubPoints_def fold_product fold_map_filter)
qed

lemma floor_two_steps:
  fixes r :: real and n :: int
  assumes "real_of_int n \<le> r" and "r < real_of_int n + 1"
  shows "\<lfloor>2 * r\<rfloor> = 2 * n \<or> \<lfloor>2 * r\<rfloor> = 2 * n + 1"
proof -
  have "2 * n \<le> \<lfloor>2 * r\<rfloor>" using assms(1) by (simp add: le_floor_iff)
  moreover have "\<lfloor>2 * r\<rfloor> < 2 * n + 2" using assms(2) by (simp add: floor_less_iff)
  ultimately show ?thesis by linarith
qed

lemma in_cells_quadrant:
  assumes "in_cells cx cy points" and "i < 7" and "j < 7"
    and "GetSubQuadrant cx cy (x2 (points ! i ! j)) (y2 (points ! i ! j)) = (qX, qY)"
  shows "(qX = 2 * (int j - 3) \<or> qX = 2 * (int j - 3) + 1)
       \<and> (qY = 2 * (int i - 3) \<or> qY = 2 * (int i - 3) + 1)"
proof -
  from assms(1) [unfolded in_cells_def, rule_format, OF assms(2,3)] have
    X: "real_of_int (int j - 3) \<le> x2 (points ! i ! j) - cx"
       "x2 (points ! i ! j) - cx < real_of_int (int j - 3) + 1"
    and Y: "real_of_int (int i - 3) \<le> y2 (points ! i ! j) - cy"
       "y2 (points ! i ! j) - cy < real_of_int (int i - 3) + 1"
    by simp_all
  from assms(4) have q: "qX = \<lfloor>2 * (x2 (points ! i ! j) - cx)\<rfloor>" "qY = \<lfloor>2 * (y2 (points ! i ! j) - cy)\<rfloor>"
    by (simp_all add: GetSubQuadrant_def)
  show ?thesis
    unfolding q using floor_two_steps [OF X] floor_two_steps [OF Y] by simp
qed

lemma ReplaceSubPoints_level1:
  assumes cells: "in_cells cx cy points"
    and ij: "i < 7" "j < 7" and kl: "k < 5" "l < 5"
    and len: "length subPoints = 5" "\<forall>row \<in> set subPoints. length row = 5"
    and addr: "GetSubQuadrant cx cy (x2 (points ! i ! j)) (y2 (points ! i ! j))
                 = position_address quadrantX quadrantY k l"
  shows "ReplaceSubPoints cx cy quadrantX quadrantY points subPoints ! k ! l = points ! i ! j"
proof -
  let ?w = "ReplaceWrite cx cy quadrantX quadrantY points"
  let ?ws = "List.map_filter ?w (List.product [0..<7] [0..<7])"
  have wij: "?w (i, j) = Some (k, l, points ! i ! j)"
    using addr kl by (simp add: ReplaceWrite_def position_address_def)
  have "(i, j) \<in> set (List.product [0..<7] [0..<7])"
    using ij by (simp only: set_product set_upt) simp
  with wij have mem: "(k, l, points ! i ! j) \<in> set ?ws"
    unfolding set_map_filter by blast
  have same: "\<forall>w \<in> set ?ws. (fst w, fst (snd w)) = (k, l) \<longrightarrow> snd (snd w) = points ! i ! j"
  proof (intro ballI impI)
    fix w assume "w \<in> set ?ws" and a: "(fst w, fst (snd w)) = (k, l)"
    then obtain z where z: "z \<in> set (List.product [0..<7] [0..<7])" and wz: "?w z = Some w"
      unfolding set_map_filter by blast
    obtain i' j' where z': "z = (i', j')" by (cases z)
    from z have ij': "i' < 7" "j' < 7" unfolding z' by (simp_all only: set_product set_upt) simp_all
    obtain qX' qY' where g': "GetSubQuadrant cx cy (x2 (points ! i' ! j')) (y2 (points ! i' ! j')) = (qX', qY')"
      by (cases "GetSubQuadrant cx cy (x2 (points ! i' ! j')) (y2 (points ! i' ! j'))")
    from wz a have k': "2 - quadrantY + qY' = int k" and l': "2 - quadrantX + qX' = int l"
      and v: "snd (snd w) = points ! i' ! j'"
      unfolding z' by (auto simp: ReplaceWrite_def g' Let_def split: if_splits)
    from addr have g: "GetSubQuadrant cx cy (x2 (points ! i ! j)) (y2 (points ! i ! j)) = (qX', qY')"
      using k' l' by (simp add: position_address_def)
    from in_cells_quadrant [OF cells ij g] in_cells_quadrant [OF cells ij' g']
    have "i' = i" and "j' = j" by presburger+
    with v show "snd (snd w) = points ! i ! j" by simp
  qed
  have k: "k < length subPoints" using kl len by simp
  then have "subPoints ! k \<in> set subPoints" by (rule nth_mem)
  with len have l: "l < length (subPoints ! k)" using kl by simp
  show ?thesis
    unfolding ReplaceSubPoints_writes by (rule update2D_last [OF mem same k l])
qed

text \<open>
  C6. Let the 49 points of level 1 be in their cells. Then every place \<open>(k, l)\<close> of the
  5 by 5 result whose quadrant address is the quadrant address of a point of level 1
  holds that point.
\<close>

theorem GenerateNeighboringSubPoints_level1:
  assumes "in_cells cx cy points"
    and "i < 7" and "j < 7" and "k < 5" and "l < 5"
    and "GetSubQuadrant cx cy x y = (quadrantX, quadrantY)"
    and "GetSubQuadrant cx cy (x2 (points ! i ! j)) (y2 (points ! i ! j))
           = position_address quadrantX quadrantY k l"
  shows "GenerateNeighboringSubPoints L e cx cy x y points ! k ! l = points ! i ! j"
proof -
  let ?sub = "map (map (\<lambda>p. \<lparr>x2 = x2 p / 2, y2 = y2 p / 2\<rparr>))
     (GenerateNeighboringPoints5 L e (2 * int_of_double cx + quadrantX) (2 * int_of_double cy + quadrantY))"
  have len: "length ?sub = 5" "\<forall>row \<in> set ?sub. length row = 5"
    by (auto simp: GenerateNeighboringPoints5_def)
  have "GenerateNeighboringSubPoints L e cx cy x y points
          = ReplaceSubPoints cx cy quadrantX quadrantY points ?sub"
    using assms(6) by (simp add: GenerateNeighboringSubPoints_def Let_def)
  then show ?thesis
    using ReplaceSubPoints_level1 [OF assms(1-5) len assms(7)] by simp
qed

text \<open>
  The points that \<^verbatim>\<open>evaluate\<close> passes are in their cells: they are the 7 by 7
  neighbourhood of the cell of the query point, generated by an engine with a margin in
  \<open>(0, 0.5)\<close>.
\<close>

lemma GeneratePoint_draws:
  "\<exists>g g'. GeneratePoint L e i j =
     \<lparr>x2 = real_of_int i + fst (distribution L (m_eps e) (1 - m_eps e) g),
      y2 = real_of_int j + fst (distribution L (m_eps e) (1 - m_eps e) g')\<rparr>"
  by (simp add: GeneratePoint_def Let_def split_beta) blast

lemma GenerateNeighboringPoints7_in_cells:
  assumes "0 < m_eps e" and "m_eps e < 1 / 2"
    and "\<And>lo hi g. lo < hi \<Longrightarrow>
            lo \<le> fst (distribution L lo hi g) \<and> fst (distribution L lo hi g) \<le> hi"
  shows "in_cells (real_of_int cxInt) (real_of_int cyInt)
           (GenerateNeighboringPoints7 L (InitPointCache L e) cxInt cyInt)"
  unfolding in_cells_def
proof (intro allI impI)
  fix i j :: nat assume i: "i < 7" and j: "j < 7"
  let ?p = "GenerateNeighboringPoints7 L (InitPointCache L e) cxInt cyInt ! i ! j"
  have p: "?p = GeneratePoint L e (cxInt + int j - 3) (cyInt + int i - 3)"
    using i j by (simp add: GenerateNeighboringPoints7_def GeneratePointCached_InitPointCache)
  from GeneratePoint_draws [of L e "cxInt + int j - 3" "cyInt + int i - 3"]
  obtain g g' where d: "?p =
     \<lparr>x2 = real_of_int (cxInt + int j - 3) + fst (distribution L (m_eps e) (1 - m_eps e) g),
      y2 = real_of_int (cyInt + int i - 3) + fst (distribution L (m_eps e) (1 - m_eps e) g')\<rparr>"
    unfolding p by blast
  have lt: "m_eps e < 1 - m_eps e" using assms(2) by simp
  from assms(3) [OF lt, of g] assms(3) [OF lt, of g'] assms(1)
  show "real_of_int cxInt + real j - 3 \<le> x2 ?p \<and> x2 ?p < real_of_int cxInt + real j - 2
        \<and> real_of_int cyInt + real i - 3 \<le> y2 ?p \<and> y2 ?p < real_of_int cyInt + real i - 2"
    unfolding d by simp
qed

text \<open>
  The query point \<open>(3.2, 3.7)\<close> of the cell \<open>(3, 3)\<close> is in the quadrant \<open>(0, 1)\<close>; the
  point of level 1 of that cell, \<open>(3.5, 3.5)\<close>, is in the quadrant \<open>(1, 1)\<close>, which is the
  address of row 2, column 3.
\<close>

lemma ref_points7_in_cells: "in_cells 3 3 ref_points7"
  by (simp add: in_cells_def ref_points7_nth)

theorem GenerateNeighboringSubPoints_level1_witness:
  "GetSubQuadrant 3 3 (16 / 5) (37 / 10) = (0, 1)
   \<and> GetSubQuadrant 3 3 (x2 (ref_points7 ! 3 ! 3)) (y2 (ref_points7 ! 3 ! 3)) = position_address 0 1 2 3
   \<and> GenerateNeighboringSubPoints ref_lib (InitPointCache ref_lib ref_config) 3 3 (16 / 5) (37 / 10)
        ref_points7 ! 2 ! 3 = \<lparr>x2 = 7 / 2, y2 = 7 / 2\<rparr>"
proof -
  have q: "GetSubQuadrant 3 3 (16 / 5) (37 / 10) = (0, 1)"
    by (simp add: GetSubQuadrant_def)
  have a: "GetSubQuadrant 3 3 (x2 (ref_points7 ! 3 ! 3)) (y2 (ref_points7 ! 3 ! 3)) = position_address 0 1 2 3"
    by (simp add: GetSubQuadrant_def ref_points7_nth position_address_def)
  from GenerateNeighboringSubPoints_level1 [OF ref_points7_in_cells _ _ _ _ q a,
      of ref_lib "InitPointCache ref_lib ref_config"]
  show ?thesis using q a by (simp add: ref_points7_nth)
qed

section \<open>The sub-segments\<close>

lemma NearestStep_scan: "NearestStep L p = scan_step (segment_distance L p)"
  by (simp add: fun_eq_iff NearestStep_def scan_step_def segment_distance_def Let_def)

lemma NearestSegment_first_minimum:
  assumes "\<exists>s \<in> set (segmentsBegin @ segmentsEnd). segment_distance L p s < DBL_MAX"
  shows "\<exists>n < length (segmentsBegin @ segmentsEnd).
           NearestSegment L p segmentsBegin segmentsEnd
             = (segment_distance L p ((segmentsBegin @ segmentsEnd) ! n), (segmentsBegin @ segmentsEnd) ! n)
           \<and> (\<forall>n' < length (segmentsBegin @ segmentsEnd).
                 segment_distance L p ((segmentsBegin @ segmentsEnd) ! n)
                   \<le> segment_distance L p ((segmentsBegin @ segmentsEnd) ! n'))
           \<and> (\<forall>n' < n. segment_distance L p ((segmentsBegin @ segmentsEnd) ! n)
                   < segment_distance L p ((segmentsBegin @ segmentsEnd) ! n'))"
proof -
  have "NearestSegment L p segmentsBegin segmentsEnd
          = fold (scan_step (segment_distance L p)) (segmentsBegin @ segmentsEnd) (DBL_MAX, Segment3D_default)"
    by (simp add: NearestSegment_def NearestStep_scan)
  with scan_first_min [OF assms, of Segment3D_default] show ?thesis by auto
qed

lemma ConnectionParameter_spec:
  "ConnectionParameter L p d s =
     spec_connection_parameter (pointLineProjection L p (ProjectionZ_seg s)) d
       (length2D L (ProjectionZ_seg s))"
  by (auto simp: ConnectionParameter_def spec_connection_parameter_def clamp_def Let_def min_def max_def)

lemma sub_index_inj:
  "inj_on (\<lambda>(i, j). 3 * (i - 1) + j - 1) (set [1..<4] \<times> set [1..<4])"
proof -
  have R: "i = i' \<and> j = j'"
    if "3 * (i - 1) + j - 1 = 3 * (i' - 1) + j' - 1"
      and "1 \<le> i" "i < 4" "1 \<le> j" "j < 4" "1 \<le> i'" "i' < 4" "1 \<le> j'" "j' < 4"
    for i j i' j' :: nat
  proof
    show "i = i'" using that by linarith
    then show "j = j'" using that by linarith
  qed
  have "inj_on (\<lambda>(i, j). 3 * (i - 1) + j - 1) ({1..<4::nat} \<times> {1..<4::nat})"
  proof (rule inj_onI)
    fix p q :: "nat \<times> nat"
    assume p: "p \<in> {1..<4} \<times> {1..<4}" and q: "q \<in> {1..<4} \<times> {1..<4}"
      and eq: "(case p of (i, j) \<Rightarrow> 3 * (i - 1) + j - 1) = (case q of (i, j) \<Rightarrow> 3 * (i - 1) + j - 1)"
    obtain i j where pp: "p = (i, j)" by (cases p)
    obtain i' j' where qq: "q = (i', j')" by (cases q)
    from p q eq have "i = i' \<and> j = j'"
      unfolding pp qq by (intro R) simp_all
    then show "p = q" by (simp add: pp qq)
  qed
  then show ?thesis by (simp only: set_upt)
qed

lemma GenerateSubSegments_nth:
  assumes "1 \<le> i" and "i \<le> 3" and "1 \<le> j" and "j \<le> 3"
  shows "GenerateSubSegments L points segmentsBegin segmentsEnd ! (3 * (i - 1) + j - 1) =
           SubSegment L (points ! i ! j) segmentsBegin segmentsEnd"
proof -
  have i: "i \<in> set [1..<4]" and j: "j \<in> set [1..<4]"
    using assms by (simp_all only: set_upt) simp_all
  have len: "3 * (i - 1) + j - 1 < length (replicate 9 Segment3D_default)"
    using assms by simp
  show ?thesis
    unfolding GenerateSubSegments_def
    by (rule fold2_list_update_nth [OF i j sub_index_inj len])
qed

text \<open>
  C7. For every inner point \<open>(i, j)\<close> of the refined neighbourhood with a half-segment
  nearer than \<open>DBL_MAX\<close>, the sub-segment stored at \<open>3 * (i - 1) + j - 1\<close> is built on the
  nearest half-segment \<open>s\<close>, the first of the begin-halves followed by the end-halves at
  the least distance \<open>d\<close>: it ends at the point interpolated on \<open>s\<close> at the parameter
  \<open>u\<close>, and starts at the refined point at the elevation of its end. The parameter \<open>u\<close> is
  the projection parameter of the point on \<open>s\<close>, clamped to \<open>[0, 1]\<close>, and, exactly when
  the clamped value lies strictly between 0 and 1, advanced by \<open>d / length s\<close> and capped
  at 1.
\<close>

theorem GenerateSubSegments_connection:
  assumes "1 \<le> i" and "i \<le> 3" and "1 \<le> j" and "j \<le> 3"
    and "\<exists>s \<in> set (segmentsBegin @ segmentsEnd). segment_distance L (points ! i ! j) s < DBL_MAX"
  shows "\<exists>n d s u.
           n < length (segmentsBegin @ segmentsEnd)
           \<and> s = (segmentsBegin @ segmentsEnd) ! n
           \<and> d = segment_distance L (points ! i ! j) s
           \<and> (\<forall>n' < length (segmentsBegin @ segmentsEnd).
                 d \<le> segment_distance L (points ! i ! j) ((segmentsBegin @ segmentsEnd) ! n'))
           \<and> (\<forall>n' < n. d < segment_distance L (points ! i ! j) ((segmentsBegin @ segmentsEnd) ! n'))
           \<and> u = spec_connection_parameter
                   (pointLineProjection L (points ! i ! j) (ProjectionZ_seg s)) d
                   (length2D L (ProjectionZ_seg s))
           \<and> u \<le> 1
           \<and> GenerateSubSegments L points segmentsBegin segmentsEnd ! (3 * (i - 1) + j - 1)
               = \<lparr>a3 = \<lparr>x3 = x2 (points ! i ! j), y3 = y2 (points ! i ! j), z3 = z3 (lerp L s u)\<rparr>,
                  b3 = lerp L s u\<rparr>"
proof -
  let ?p = "points ! i ! j"
  let ?cs = "segmentsBegin @ segmentsEnd"
  from NearestSegment_first_minimum [OF assms(5)] obtain n where n: "n < length ?cs"
    and near: "NearestSegment L ?p segmentsBegin segmentsEnd
                 = (segment_distance L ?p (?cs ! n), ?cs ! n)"
    and le: "\<forall>n' < length ?cs. segment_distance L ?p (?cs ! n) \<le> segment_distance L ?p (?cs ! n')"
    and first: "\<forall>n' < n. segment_distance L ?p (?cs ! n) < segment_distance L ?p (?cs ! n')"
    by blast
  define s where "s = ?cs ! n"
  define d where "d = segment_distance L ?p s"
  define u where "u = spec_connection_parameter (pointLineProjection L ?p (ProjectionZ_seg s)) d
                        (length2D L (ProjectionZ_seg s))"
  have range: "u \<le> 1"
    by (simp add: u_def spec_connection_parameter_def Let_def min_def max_def)
  have "GenerateSubSegments L points segmentsBegin segmentsEnd ! (3 * (i - 1) + j - 1)
          = \<lparr>a3 = \<lparr>x3 = x2 ?p, y3 = y2 ?p, z3 = z3 (lerp L s u)\<rparr>, b3 = lerp L s u\<rparr>"
    using GenerateSubSegments_nth [OF assms(1-4), of L points segmentsBegin segmentsEnd]
    by (simp add: SubSegment_def near ConnectionParameter_spec Let_def s_def d_def u_def)
  with n le first range show ?thesis
    by (rule_tac x = n in exI, rule_tac x = d in exI, rule_tac x = s in exI, rule_tac x = u in exI)
       (simp add: s_def d_def u_def)
qed

text \<open>
  The refined point \<open>(1, 1)\<close> is nearest to the begin-half at \<open>y = 0\<close>, at the distance 1;
  its projection parameter 1/4 is advanced by 1/4, and the sub-segment ends at
  \<open>(2, 0)\<close>, at an angle of 45 degrees with the half-segment.
\<close>

lemma ref_points5_nth: "k < 5 \<Longrightarrow> l < 5 \<Longrightarrow> ref_points5 ! k ! l = \<lparr>x2 = real l, y2 = real k\<rparr>"
  by (simp add: ref_points5_def)

lemma ref_distance_begin:
  "segment_distance ref_lib \<lparr>x2 = 1, y2 = 1\<rparr>
     \<lparr>a3 = \<lparr>x3 = 0, y3 = - real n, z3 = 0\<rparr>, b3 = \<lparr>x3 = 4, y3 = - real n, z3 = 1\<rparr>\<rparr> = 1 + real n"
proof -
  have "sqrt ((1 + real n) * (1 + real n)) = 1 + real n" by simp
  then show ?thesis
    by (simp add: segment_distance_def ref_lib_def ref_distToLineSegment_def
      ref_pointLineProjection_def dot_along_def ProjectionZ_seg_def ProjectionZ_def dist_sq_def
      clamp_def lerp2D_def ref_dist_def Let_def)
qed

lemma ref_distance_end:
  "segment_distance ref_lib \<lparr>x2 = 1, y2 = 1\<rparr>
     \<lparr>a3 = \<lparr>x3 = 0, y3 = 10 + real n, z3 = 0\<rparr>, b3 = \<lparr>x3 = 4, y3 = 10 + real n, z3 = 1\<rparr>\<rparr> = 9 + real n"
proof -
  have "sqrt ((9 + real n) * (9 + real n)) = 9 + real n" by simp
  moreover have "(- 9 - real n) * (- 9 - real n) = (9 + real n) * (9 + real n)" by (simp add: algebra_simps)
  ultimately show ?thesis
    by (simp add: segment_distance_def ref_lib_def ref_distToLineSegment_def
      ref_pointLineProjection_def dot_along_def ProjectionZ_seg_def ProjectionZ_def dist_sq_def
      clamp_def lerp2D_def ref_dist_def Let_def)
qed

lemma ref_candidates_distance:
  assumes "n < 50"
  shows "1 \<le> segment_distance ref_lib \<lparr>x2 = 1, y2 = 1\<rparr> ((ref_segmentsBegin @ ref_segmentsEnd) ! n)"
proof (cases "n < 25")
  case True
  then show ?thesis
    by (simp add: nth_append ref_segmentsBegin_def ref_distance_begin)
next
  case False
  define m where "m = n - 25"
  with assms False have m: "m < 25" by simp
  have "(ref_segmentsBegin @ ref_segmentsEnd) ! n = ref_segmentsEnd ! m"
    using False by (simp add: nth_append ref_segmentsBegin_def m_def)
  also have "\<dots> = \<lparr>a3 = \<lparr>x3 = 0, y3 = 10 + real m, z3 = 0\<rparr>,
                      b3 = \<lparr>x3 = 4, y3 = 10 + real m, z3 = 1\<rparr>\<rparr>"
    using m by (simp add: ref_segmentsEnd_def)
  finally show ?thesis by (simp only: ref_distance_end)
qed

lemma ref_candidate_0:
  "(ref_segmentsBegin @ ref_segmentsEnd) ! 0
     = \<lparr>a3 = \<lparr>x3 = 0, y3 = 0, z3 = 0\<rparr>, b3 = \<lparr>x3 = 4, y3 = 0, z3 = 1\<rparr>\<rparr>"
  by (simp add: nth_append ref_segmentsBegin_def)

lemma ref_candidate_0_distance:
  "segment_distance ref_lib \<lparr>x2 = 1, y2 = 1\<rparr> ((ref_segmentsBegin @ ref_segmentsEnd) ! 0) = 1"
  unfolding ref_candidate_0 using ref_distance_begin [of 0] by simp

theorem GenerateSubSegments_connection_witness:
  "GenerateSubSegments ref_lib ref_points5 ref_segmentsBegin ref_segmentsEnd ! 0
     = \<lparr>a3 = \<lparr>x3 = 1, y3 = 1, z3 = 1 / 2\<rparr>, b3 = \<lparr>x3 = 2, y3 = 0, z3 = 1 / 2\<rparr>\<rparr>"
proof -
  let ?p = "\<lparr>x2 = 1, y2 = 1\<rparr>"
  let ?cs = "ref_segmentsBegin @ ref_segmentsEnd"
  have p: "ref_points5 ! 1 ! 1 = ?p" by (simp add: ref_points5_nth)
  have len: "length ?cs = 50" by (simp add: ref_segmentsBegin_def ref_segmentsEnd_def)
  have "0 < length ?cs" unfolding len by simp
  then have "?cs ! 0 \<in> set ?cs" by (rule nth_mem)
  moreover have "segment_distance ref_lib (ref_points5 ! 1 ! 1) (?cs ! 0) < DBL_MAX"
    unfolding p ref_candidate_0_distance by (simp add: DBL_MAX_def)
  ultimately have ex: "\<exists>s \<in> set ?cs. segment_distance ref_lib (ref_points5 ! 1 ! 1) s < DBL_MAX"
    by blast
  from GenerateSubSegments_connection [of 1 1 ref_segmentsBegin ref_segmentsEnd ref_lib ref_points5,
      OF _ _ _ _ ex]
  obtain n d s u where n: "n < length ?cs" and s: "s = ?cs ! n"
    and d: "d = segment_distance ref_lib ?p s"
    and first: "\<forall>n' < n. d < segment_distance ref_lib ?p (?cs ! n')"
    and u: "u = spec_connection_parameter (pointLineProjection ref_lib ?p (ProjectionZ_seg s)) d
                  (length2D ref_lib (ProjectionZ_seg s))"
    and g: "GenerateSubSegments ref_lib ref_points5 ref_segmentsBegin ref_segmentsEnd ! (3 * (1 - 1) + 1 - 1)
               = \<lparr>a3 = \<lparr>x3 = x2 ?p, y3 = y2 ?p, z3 = z3 (lerp ref_lib s u)\<rparr>, b3 = lerp ref_lib s u\<rparr>"
    unfolding p by auto
  have n0: "n = 0"
  proof (rule ccontr)
    assume "n \<noteq> 0"
    with first have "d < segment_distance ref_lib ?p (?cs ! 0)" by simp
    moreover have "1 \<le> d" unfolding d s using n len by (intro ref_candidates_distance) simp
    ultimately show False by (simp add: ref_candidate_0_distance)
  qed
  have s0: "s = \<lparr>a3 = \<lparr>x3 = 0, y3 = 0, z3 = 0\<rparr>, b3 = \<lparr>x3 = 4, y3 = 0, z3 = 1\<rparr>\<rparr>"
    unfolding s n0 by (rule ref_candidate_0)
  have d1: "d = 1" unfolding d s n0 by (rule ref_candidate_0_distance)
  have "sqrt 16 = sqrt (4 * 4)" by simp
  then have sq: "sqrt 16 = 4" by (simp only: real_sqrt_mult_self) simp
  have u2: "u = 1 / 2"
    unfolding u d1 s0
    by (simp add: spec_connection_parameter_def ref_lib_def ref_pointLineProjection_def
        dot_along_def
        ref_length2D_def ref_dist_def dist_sq_def ProjectionZ_seg_def ProjectionZ_def sq)
  from g show ?thesis
    unfolding u2 s0 by (simp add: ref_lib_def ref_lerp_def)
qed

section \<open>The length of the nearest segment\<close>




lemma dist_sq_nonneg: "0 \<le> dist_sq p q"
  by (simp add: dist_sq_def)


text \<open>
  The distance of the reference library is the distance from the point to a point of the
  segment, and no point of the segment is nearer: it is the planar point-to-segment
  distance, for a segment of any length.
\<close>

lemma dist_sq_lerp2D:
  "dist_sq p (lerp2D s v)
     = dist_sq p (a2 s) - 2 * v * dot_along p s + v * v * dist_sq (a2 s) (b2 s)"
  by (simp add: dist_sq_def lerp2D_def dot_along_def algebra_simps)

lemma lerp2D_ends: "lerp2D s 0 = a2 s" "lerp2D s 1 = b2 s"
  by (simp_all add: lerp2D_def)

lemma ref_nearest_point_least:
  assumes "0 \<le> u" and "u \<le> 1"
  shows "dist_sq p (snd (ref_distToLineSegment p s)) \<le> dist_sq p (lerp2D s u)"
proof -
  define t where "t = dot_along p s"
  define l2 where "l2 = dist_sq (a2 s) (b2 s)"
  define e where "e = dist_sq p (a2 s)"
  have l2: "0 \<le> l2" unfolding l2_def by (rule dist_sq_nonneg)
  have D: "dist_sq p (lerp2D s v) = e - 2 * v * t + v * v * l2" for v
    unfolding t_def l2_def e_def by (rule dist_sq_lerp2D)
  have Da: "dist_sq p (a2 s) = e" by (simp add: e_def)
  have Db: "dist_sq p (b2 s) = e - 2 * t + l2"
    using D [of 1] by (simp add: lerp2D_ends)
  consider "t \<le> 0" | "0 < t" "l2 \<le> t" | "0 < t" "t < l2" by linarith
  then show ?thesis
  proof cases
    case 1
    have "0 \<le> u * (- t)" using assms(1) 1 by (intro mult_nonneg_nonneg) simp_all
    moreover have "0 \<le> u * u * l2" using l2 by simp
    ultimately have "e \<le> e - 2 * u * t + u * u * l2" by (simp add: algebra_simps)
    with 1 show ?thesis
      by (simp add: ref_distToLineSegment_def Let_def t_def [symmetric] D Da)
  next
    case 2
    have "l2 * (1 + u) \<le> l2 * 2" using assms(2) l2 by (intro mult_left_mono) simp_all
    with 2 have "0 \<le> 2 * t - l2 * (1 + u)" by simp
    moreover have "0 \<le> 1 - u" using assms(2) by simp
    ultimately have "0 \<le> (1 - u) * (2 * t - l2 * (1 + u))" by (intro mult_nonneg_nonneg)
    then have "e - 2 * t + l2 \<le> e - 2 * u * t + u * u * l2" by (simp add: algebra_simps)
    with 2 show ?thesis
      by (simp add: ref_distToLineSegment_def Let_def t_def [symmetric] l2_def [symmetric] D Db)
  next
    case 3
    then have pos: "0 < l2" by simp
    have "(e - 2 * u * t + u * u * l2) - (e - 2 * (t / l2) * t + (t / l2) * (t / l2) * l2)
            = (u * l2 - t) * (u * l2 - t) / l2"
      using pos by (simp add: field_simps)
    moreover have "0 \<le> (u * l2 - t) * (u * l2 - t) / l2" using pos by simp
    ultimately have "e - 2 * (t / l2) * t + (t / l2) * (t / l2) * l2 \<le> e - 2 * u * t + u * u * l2"
      by linarith
    with 3 show ?thesis
      by (simp add: ref_distToLineSegment_def Let_def t_def [symmetric] l2_def [symmetric] D)
  qed
qed

lemma ref_nearest_point_on_segment:
  "\<exists>u. 0 \<le> u \<and> u \<le> 1 \<and> snd (ref_distToLineSegment p s) = lerp2D s u"
proof -
  define t where "t = dot_along p s"
  define l2 where "l2 = dist_sq (a2 s) (b2 s)"
  consider "t \<le> 0" | "0 < t" "l2 \<le> t" | "0 < t" "t < l2" by linarith
  then show ?thesis
  proof cases
    case 1
    then have "snd (ref_distToLineSegment p s) = lerp2D s 0"
      by (simp add: ref_distToLineSegment_def Let_def t_def [symmetric] lerp2D_ends)
    then show ?thesis by (intro exI [of _ 0]) simp
  next
    case 2
    then have "snd (ref_distToLineSegment p s) = lerp2D s 1"
      by (simp add: ref_distToLineSegment_def Let_def t_def [symmetric] l2_def [symmetric] lerp2D_ends)
    then show ?thesis by (intro exI [of _ 1]) simp
  next
    case 3
    then have "snd (ref_distToLineSegment p s) = lerp2D s (t / l2)"
      by (simp add: ref_distToLineSegment_def Let_def t_def [symmetric] l2_def [symmetric])
    moreover from 3 have "0 \<le> t / l2" "t / l2 \<le> 1" by simp_all
    ultimately show ?thesis by (intro exI [of _ "t / l2"]) simp
  qed
qed

lemma ref_distance_least:
  assumes "0 \<le> u" and "u \<le> 1"
  shows "segment_distance ref_lib p s \<le> ref_dist p (lerp2D (ProjectionZ_seg s) u)"
proof -
  have "segment_distance ref_lib p s
          = ref_dist p (snd (ref_distToLineSegment p (ProjectionZ_seg s)))"
    by (simp add: segment_distance_def ref_lib_def ref_distToLineSegment_def Let_def)
  then show ?thesis
    using ref_nearest_point_least [OF assms, of p "ProjectionZ_seg s"]
    by (simp add: ref_dist_def)
qed

























end
